theory Spec2Isabelle
  imports Main
begin

section \<open>Data model\<close>

text \<open>
  The document context of \<^verbatim>\<open>packages/docregistry/src/context.ts\<close>, the autosave
  handler (\<^verbatim>\<open>SaveHandler\<close>) and the document manager (\<^verbatim>\<open>DocumentManager\<close>) are
  embedded as state-passing functions. A promise is a result \<open>err + 'a\<close> paired with the
  state after the continuation ran; \<open>Inl\<close> is a rejection.
\<close>

subsection \<open>Errors and contents models\<close>

text \<open>
  A rejection carries either a server response with a status (\<^verbatim>\<open>err.response.status\<close>),
  or no response at all: the string \<^verbatim>\<open>'Disposed'\<close> of \<^verbatim>\<open>Promise.reject('Disposed')\<close>,
  the TypeError of a property read on \<^verbatim>\<open>undefined\<close>, or any other error.
\<close>

datatype err = ResponseError nat | Disposed | TypeError | OtherError string

text \<open>\<^verbatim>\<open>err.response && err.response.status === n\<close>\<close>

fun hasStatus :: "err \<Rightarrow> nat \<Rightarrow> bool" where
  "hasStatus (ResponseError k) n = (k = n)"
| "hasStatus _ n = False"

text \<open>
  The \<^verbatim>\<open>content\<close> of a contents model: \<^verbatim>\<open>undefined\<close>, a string, an array, or any
  other JSON value (null, a boolean, a number or an object, kept in serialised form).
  Strings and arrays are the values that have an \<^verbatim>\<open>indexOf\<close> method.
\<close>

datatype content = Undefined | Str string | Arr "content list" | Json string

text \<open>
  \<^verbatim>\<open>Contents.IModel\<close>. \<open>last_modified\<close> is the ISO string of the server;
  \<open>None\<close> stands for \<^verbatim>\<open>undefined\<close>.
\<close>

record contents_model =
  path :: string
  name :: string
  mtype :: string
  content :: content
  writable :: bool
  created :: string
  last_modified :: "string option"
  mimetype :: string
  format :: string

text \<open>JavaScript truthiness of an optional string: \<^verbatim>\<open>undefined\<close> and \<^verbatim>\<open>''\<close> are falsy.\<close>

fun truthy :: "string option \<Rightarrow> bool" where
  "truthy None = False"
| "truthy (Some s) = (s \<noteq> [])"

text \<open>\<^verbatim>\<open>Contents.ICheckpointModel\<close>\<close>

record checkpoint =
  cp_id :: string
  cp_last_modified :: string

text \<open>\<^verbatim>\<open>Contents.IChangedArgs\<close>: a null value is \<open>None\<close>.\<close>

record changed_args =
  ctype :: string
  oldValue :: "contents_model option"
  newValue :: "contents_model option"

subsection \<open>Observable effects\<close>

text \<open>
  Calls to the contents manager, dialogs and emitted signals are recorded, in order, in
  the \<open>events\<close> field of the state, so that statements such as "the save proceeds to
  write" or "emits fileChanged" can be made about a run.
\<close>

datatype event =
    Fetch string bool
  | ListCheckpoints string
  | CreateCheckpoint string
  | Write string string string content
  | ShowDialog string
  | FileChanged contents_model
  | PathChanged string

subsection \<open>The context and its collaborators\<close>

text \<open>
  The fields of \<^verbatim>\<open>Private.Context\<close> (\<open>c_path\<close> is \<^verbatim>\<open>_path\<close>), the document model it
  owns (\<open>dirty\<close>, \<open>readOnly\<close>, \<open>isCollaborative\<close> for \<^verbatim>\<open>modelDB.isCollaborative\<close>, and
  \<open>mvalue\<close>, what the model holds), the two properties of its factory that
  \<^verbatim>\<open>saveModel\<close> reads, the path and name of its session, and the checkpoints the
  storage service keeps for each path.

  \<open>isDisposed\<close> is read wherever the source reads it. The flag does not change while
  an operation runs: a disposal during a pending request is outside this model.
\<close>

record state =
  c_path :: string
  contentsModel :: contents_model
  isDisposed :: bool
  hasCheckpointed :: bool
  dirty :: bool
  readOnly :: bool
  isCollaborative :: bool
  mvalue :: content
  fileFormat :: string
  contentType :: string
  session_path :: string
  session_name :: string
  checkpoints :: "string \<Rightarrow> checkpoint list"
  events :: "event list"

text \<open>
  What the collaborators answer during one \<^verbatim>\<open>save()\<close> or \<^verbatim>\<open>revert()\<close>:
  \<open>r_get\<close> is the result of \<^verbatim>\<open>contents.get(path, { content: false })\<close>,
  \<open>r_dialog\<close> the label of the button pressed in the conflict dialog,
  \<open>r_listCheckpoints\<close> the error of \<^verbatim>\<open>listCheckpoints\<close> if it fails,
  \<open>r_createCheckpoint\<close> the result of \<^verbatim>\<open>createCheckpoint\<close>, \<open>r_save\<close> the result of
  \<^verbatim>\<open>contents.save\<close> and \<open>r_load\<close> the result of the full fetch of \<^verbatim>\<open>loadModel\<close>.
\<close>

record env =
  r_get :: "err + contents_model"
  r_dialog :: string
  r_listCheckpoints :: "err option"
  r_createCheckpoint :: "err + checkpoint"
  r_save :: "err + contents_model"
  r_load :: "err + contents_model"

definition emit :: "event \<Rightarrow> state \<Rightarrow> state" where
  "emit e s = s\<lparr>events := events s @ [e]\<rparr>"

section \<open>The document context\<close>

subsection \<open>Loading\<close>

text \<open>\<^verbatim>\<open>content.replace(/\r\n|\r/g, '\n')\<close>: leftmost matches, \<^verbatim>\<open>\r\n\<close> tried first.\<close>

fun replace_crlf :: "string \<Rightarrow> string" where
  "replace_crlf [] = []"
| "replace_crlf (c # cs) =
     (if c = CHR 0x0D then
        (case cs of
           [] \<Rightarrow> [CHR 0x0A]
         | d # ds \<Rightarrow>
             if d = CHR 0x0A then CHR 0x0A # replace_crlf ds
             else CHR 0x0A # replace_crlf (d # ds))
      else c # replace_crlf cs)"

text \<open>
  Modelled from the spec: the model's deserialisers \<^verbatim>\<open>fromJSON\<close> and \<^verbatim>\<open>fromString\<close>
  store what they are given, and \<^verbatim>\<open>toJSON\<close> and \<^verbatim>\<open>toString\<close> return what the model
  holds (the document model comes from a pluggable factory).
\<close>

definition fromJSON :: "content \<Rightarrow> state \<Rightarrow> state" where
  "fromJSON v s = s\<lparr>mvalue := v\<rparr>"

definition fromString :: "content \<Rightarrow> state \<Rightarrow> state" where
  "fromString v s = s\<lparr>mvalue := v\<rparr>"

definition toJSON :: "state \<Rightarrow> content" where
  "toJSON s = mvalue s"

definition toString :: "state \<Rightarrow> content" where
  "toString s = mvalue s"

text \<open>
  \<^verbatim>\<open>Private.updateModel\<close>. In the text branch \<^verbatim>\<open>content.indexOf('\r')\<close> is defined
  for a string and for an array, where it looks for an element equal to the string
  \<^verbatim>\<open>'\r'\<close>; on any other content the call throws before the model is touched. An array
  has no \<^verbatim>\<open>replace\<close> method: when it holds \<^verbatim>\<open>'\r'\<close> the call of \<^verbatim>\<open>replace\<close> throws, again
  before the model is touched; otherwise the array is handed to \<^verbatim>\<open>fromString\<close>.
\<close>

definition updateModel :: "contents_model \<Rightarrow> state \<Rightarrow> err + state" where
  "updateModel contents s =
     (if format contents = ''json'' then
        Inr ((fromJSON (content contents) s)\<lparr>dirty := False\<rparr>)
      else
        (case content contents of
           Str c \<Rightarrow>
             if CHR 0x0D \<in> set c
             then Inr ((fromString (Str (replace_crlf c)) s)\<lparr>dirty := True\<rparr>)
             else Inr ((fromString (Str c) s)\<lparr>dirty := False\<rparr>)
         | Arr xs \<Rightarrow>
             if Str [CHR 0x0D] \<in> set xs
             then Inl TypeError
             else Inr ((fromString (Arr xs) s)\<lparr>dirty := False\<rparr>)
         | _ \<Rightarrow> Inl TypeError))"

text \<open>\<^verbatim>\<open>Private.loadModel\<close>\<close>

definition loadModel :: "env \<Rightarrow> state \<Rightarrow> (err + contents_model) \<times> state" where
  "loadModel ev s =
     (let s1 = emit (Fetch (c_path s) True) s in
      case r_load ev of
        Inl e \<Rightarrow> (Inl e, s1)
      | Inr contents \<Rightarrow>
          (case updateModel contents s1 of
             Inl e \<Rightarrow> (Inl e, s1)
           | Inr s2 \<Rightarrow> (Inr contents, s2)))"

subsection \<open>Metadata and errors\<close>

text \<open>
  \<^verbatim>\<open>_updateContentsModel\<close>, called with a contents model. The call with
  \<^verbatim>\<open>undefined\<close> (see \<open>ctx_save\<close>) throws at \<^verbatim>\<open>model.path\<close>, before any assignment.
\<close>

definition updateContentsModel :: "contents_model \<Rightarrow> state \<Rightarrow> state" where
  "updateContentsModel m s =
     (let newModel = \<lparr>path = path m, name = name m, mtype = mtype m,
                       content = Undefined, writable = writable m,
                       created = created m, last_modified = last_modified m,
                       mimetype = mimetype m, format = format m\<rparr>;
          mod' = last_modified (contentsModel s);
          s1 = s\<lparr>contentsModel := newModel\<rparr>
      in if \<not> truthy mod' \<or> last_modified newModel \<noteq> mod'
         then emit (FileChanged newModel) s1
         else s1)"

text \<open>\<^verbatim>\<open>_handleError\<close>: a dialog with the given title; the body is taken from the error.\<close>

definition handleError :: "err \<Rightarrow> string \<Rightarrow> state \<Rightarrow> state" where
  "handleError e title s = emit (ShowDialog title) s"

subsection \<open>Checkpoints and writing\<close>

text \<open>
  Modelled from the spec: the checkpoint store of the storage client, which is not part
  of the sources. Checkpoints are kept per path and listed in creation order; a
  created checkpoint, assigned by the server, is added at the end.
\<close>

definition store_list :: "(string \<Rightarrow> checkpoint list) \<Rightarrow> string \<Rightarrow> checkpoint list" where
  "store_list st p = st p"

definition store_create ::
  "(string \<Rightarrow> checkpoint list) \<Rightarrow> string \<Rightarrow> checkpoint \<Rightarrow> (string \<Rightarrow> checkpoint list)" where
  "store_create st p cp = st(p := st p @ [cp])"

text \<open>\<^verbatim>\<open>listCheckpoints\<close> and \<^verbatim>\<open>createCheckpoint\<close>, passed through to the storage client.\<close>

definition listCheckpoints :: "env \<Rightarrow> state \<Rightarrow> (err + checkpoint list) \<times> state" where
  "listCheckpoints ev s =
     (let s1 = emit (ListCheckpoints (c_path s)) s in
      case r_listCheckpoints ev of
        Some e \<Rightarrow> (Inl e, s1)
      | None \<Rightarrow> (Inr (store_list (checkpoints s1) (c_path s1)), s1))"

definition createCheckpoint :: "env \<Rightarrow> state \<Rightarrow> (err + checkpoint) \<times> state" where
  "createCheckpoint ev s =
     (let s1 = emit (CreateCheckpoint (c_path s)) s in
      case r_createCheckpoint ev of
        Inl e \<Rightarrow> (Inl e, s1)
      | Inr cp \<Rightarrow>
          (Inr cp, s1\<lparr>checkpoints := store_create (checkpoints s1) (c_path s1) cp\<rparr>))"

text \<open>The \<^verbatim>\<open>catch\<close> of \<^verbatim>\<open>_maybeCheckpoint\<close>: only a 403 response is handled.\<close>

definition catch403 :: "(err + unit) \<times> state \<Rightarrow> (err + unit) \<times> state" where
  "catch403 r =
     (case r of
        (Inl e, s) \<Rightarrow> if hasStatus e 403 then (Inr (), s) else (Inl e, s)
      | (Inr u, s) \<Rightarrow> (Inr u, s))"

text \<open>\<^verbatim>\<open>_maybeCheckpoint\<close>\<close>

definition maybeCheckpoint :: "env \<Rightarrow> state \<Rightarrow> (err + unit) \<times> state" where
  "maybeCheckpoint ev s =
     (if \<not> writable (contentsModel s) \<or> hasCheckpointed s then (Inr (), s)
      else catch403
        (case listCheckpoints ev s of
           (Inl e, s1) \<Rightarrow> (Inl e, s1)
         | (Inr cps, s1) \<Rightarrow>
             if \<not> isDisposed s1 \<and> cps = [] \<and> writable (contentsModel s1) then
               (case createCheckpoint ev s1 of
                  (Inl e, s2) \<Rightarrow> (Inl e, s2)
                | (Inr cp, s2) \<Rightarrow> (Inr (), s2\<lparr>hasCheckpointed := True\<rparr>))
             else (Inr (), s1)))"

text \<open>\<^verbatim>\<open>Private.saveModel\<close>\<close>

definition saveModel :: "env \<Rightarrow> state \<Rightarrow> (err + contents_model) \<times> state" where
  "saveModel ev s =
     (let c = (if fileFormat s = ''json'' then toJSON s else toString s) in
      (r_save ev, emit (Write (c_path s) (contentType s) (fileFormat s) c) s))"

text \<open>\<^verbatim>\<open>_save\<close>\<close>

definition save_priv :: "env \<Rightarrow> state \<Rightarrow> (err + contents_model) \<times> state" where
  "save_priv ev s =
     (case maybeCheckpoint ev s of
        (Inl e, s1) \<Rightarrow> (Inl e, s1)
      | (Inr u, s1) \<Rightarrow> saveModel ev s1)"

subsection \<open>Revert, conflicts and save\<close>

text \<open>\<^verbatim>\<open>revert\<close>: it handles its own errors and always resolves.\<close>

definition revert :: "env \<Rightarrow> state \<Rightarrow> state" where
  "revert ev s =
     (case loadModel ev s of
        (Inl e, s1) \<Rightarrow> handleError e ''File Load Error'' s1
      | (Inr contents, s1) \<Rightarrow>
          if isDisposed s1 then s1 else updateContentsModel contents s1)"

text \<open>
  The value a save promise resolves with is a contents model or \<^verbatim>\<open>undefined\<close>
  (\<open>None\<close>).
\<close>

definition resolved :: "(err + contents_model) \<times> state \<Rightarrow> (err + contents_model option) \<times> state" where
  "resolved r = (case r of (Inl e, s) \<Rightarrow> (Inl e, s) | (Inr m, s) \<Rightarrow> (Inr (Some m), s))"

text \<open>
  \<^verbatim>\<open>_timeConflict\<close>: the dialog offers the cancel button, REVERT and OVERWRITE. When the
  label is neither OVERWRITE nor REVERT the continuation returns nothing.
\<close>

definition timeConflict :: "env \<Rightarrow> contents_model \<Rightarrow> state \<Rightarrow> (err + contents_model option) \<times> state" where
  "timeConflict ev m s =
     (let s1 = emit (ShowDialog ''File Changed'') s in
      if isDisposed s1 then (Inl Disposed, s1)
      else if r_dialog ev = ''OVERWRITE'' then resolved (save_priv ev s1)
      else if r_dialog ev = ''REVERT'' then (Inr (Some m), revert ev s1)
      else (Inr None, s1))"

text \<open>
  \<^verbatim>\<open>new Date(x).getTime()\<close> is a parameter \<open>D\<close> of the model: the milliseconds of a
  date string, \<open>None\<close> for NaN (an invalid date). \<^verbatim>\<open>new Date(undefined)\<close> is invalid.
  Millisecond counts are integers that doubles represent exactly.
\<close>

fun getTime :: "(string \<Rightarrow> int option) \<Rightarrow> string option \<Rightarrow> int option" where
  "getTime D None = None"
| "getTime D (Some x) = D x"

text \<open>\<^verbatim>\<open>(tDisk.getTime() - tClient.getTime()) > 500\<close>; a comparison with NaN is false.\<close>

fun exceedsTolerance :: "int option \<Rightarrow> int option \<Rightarrow> bool" where
  "exceedsTolerance (Some tDisk) (Some tClient) = (tDisk - tClient > 500)"
| "exceedsTolerance _ _ = False"

text \<open>\<^verbatim>\<open>_maybeSave\<close>\<close>

definition maybeSave :: "(string \<Rightarrow> int option) \<Rightarrow> env \<Rightarrow> state \<Rightarrow> (err + contents_model option) \<times> state" where
  "maybeSave D ev s =
     (let s1 = emit (Fetch (c_path s) False) s in
      case r_get ev of
        Inr m \<Rightarrow>
          if isDisposed s1 then (Inl Disposed, s1)
          else
            (let modified = last_modified (contentsModel s1);
                 tClient = getTime D modified;
                 tDisk = getTime D (last_modified m)
             in if truthy modified \<and> exceedsTolerance tDisk tClient
                then timeConflict ev m s1
                else resolved (save_priv ev s1))
      | Inl e \<Rightarrow>
          if hasStatus e 404 then resolved (save_priv ev s1) else (Inl e, s1))"

text \<open>
  \<^verbatim>\<open>save\<close>. \<open>save_then\<close> is the \<^verbatim>\<open>.then(value => ...).catch(err => ...)\<close> chain:
  the continuation clears \<^verbatim>\<open>dirty\<close> and then calls \<^verbatim>\<open>_updateContentsModel(value)\<close>,
  which throws on \<^verbatim>\<open>undefined\<close>; every rejection ends in \<^verbatim>\<open>_handleError\<close>.
\<close>

definition save_then :: "(err + contents_model option) \<times> state \<Rightarrow> state" where
  "save_then r =
     (case r of
        (Inl e, s1) \<Rightarrow> handleError e ''File Save Error'' s1
      | (Inr v, s1) \<Rightarrow>
          if isDisposed s1 then s1
          else
            (let s2 = s1\<lparr>dirty := False\<rparr> in
             case v of
               None \<Rightarrow> handleError TypeError ''File Save Error'' s2
             | Some m \<Rightarrow> updateContentsModel m s2))"

definition ctx_save :: "(string \<Rightarrow> int option) \<Rightarrow> env \<Rightarrow> state \<Rightarrow> state" where
  "ctx_save D ev s =
     save_then (if \<not> isCollaborative s then maybeSave D ev s
                else resolved (save_priv ev s))"

subsection \<open>Renames\<close>

text \<open>
  Modelled from the spec: the session exposes its path and name; \<^verbatim>\<open>setPath\<close> and
  \<^verbatim>\<open>setName\<close> store them. \<open>nameOf\<close> stands for
  \<^verbatim>\<open>PathExt.basename(contents.localPath(p))\<close>.
\<close>

definition setPath :: "string \<Rightarrow> state \<Rightarrow> state" where
  "setPath p s = s\<lparr>session_path := p\<rparr>"

definition setName :: "string \<Rightarrow> state \<Rightarrow> state" where
  "setName n s = s\<lparr>session_name := n\<rparr>"

text \<open>\<^verbatim>\<open>_onFileChanged\<close>\<close>

definition onFileChanged :: "(string \<Rightarrow> string) \<Rightarrow> changed_args \<Rightarrow> state \<Rightarrow> state" where
  "onFileChanged nameOf change s =
     (if ctype change \<noteq> ''rename'' then s
      else
        (let oldPath = map_option path (oldValue change) in
         case newValue change of
           None \<Rightarrow> s
         | Some nv \<Rightarrow>
             if path nv \<noteq> [] \<and> oldPath = Some (c_path s) then
               (let s1 = setPath (path nv) s;
                    s2 = setName (nameOf (path nv)) s1;
                    s3 = s2\<lparr>c_path := path nv\<rparr>;
                    s4 = updateContentsModel nv s3;
                    s5 = s4\<lparr>hasCheckpointed := False\<rparr>
                in emit (PathChanged (c_path s5)) s5)
             else s))"

text \<open>\<^verbatim>\<open>_onSessionChanged\<close>\<close>

definition onSessionChanged :: "string \<Rightarrow> state \<Rightarrow> state" where
  "onSessionChanged type s =
     (if type \<noteq> ''path'' then s
      else
        (let p = session_path s in
         if p \<noteq> c_path s then
           (let s1 = s\<lparr>c_path := p\<rparr>;
                s2 = s1\<lparr>hasCheckpointed := False\<rparr>
            in emit (PathChanged p) s2)
         else s))"

section \<open>The autosave handler\<close>

text \<open>
  \<^verbatim>\<open>SaveHandler\<close>. Intervals are in milliseconds; \<open>autosaveTimer\<close> is the delay of the
  pending timeout, \<open>None\<close> when it is cleared.
\<close>

record save_handler =
  minInterval :: int
  interval :: int
  isActive :: bool
  inDialog :: bool
  sh_isDisposed :: bool
  autosaveTimer :: "int option"

text \<open>\<^verbatim>\<open>_multiplier\<close> is initialised to 10 and never assigned.\<close>

definition multiplier :: int where
  "multiplier = 10"

text \<open>The constructor: \<^verbatim>\<open>options.saveInterval || 120\<close>, in seconds.\<close>

definition SaveHandler_new :: "int option \<Rightarrow> save_handler" where
  "SaveHandler_new saveInterval =
     (let i = (case saveInterval of
                 None \<Rightarrow> 120
               | Some v \<Rightarrow> if v = 0 then 120 else v)
      in \<lparr>minInterval = i * 1000, interval = i * 1000, isActive = False,
          inDialog = False, sh_isDisposed = False, autosaveTimer = None\<rparr>)"

text \<open>\<^verbatim>\<open>_setTimer\<close>\<close>

definition setTimer :: "save_handler \<Rightarrow> save_handler" where
  "setTimer h =
     (let h1 = h\<lparr>autosaveTimer := None\<rparr> in
      if \<not> isActive h1 then h1
      else h1\<lparr>autosaveTimer := Some (interval h1)\<rparr>)"

definition start :: "save_handler \<Rightarrow> save_handler" where
  "start h = setTimer (h\<lparr>isActive := True\<rparr>)"

definition stop :: "save_handler \<Rightarrow> save_handler" where
  "stop h = h\<lparr>isActive := False, autosaveTimer := None\<rparr>"

text \<open>
  \<^verbatim>\<open>SaveHandler._save\<close>, the timeout callback. \<open>duration\<close> is the difference of the two
  clock readings around \<^verbatim>\<open>context.save()\<close>, whose promise always resolves.
\<close>

definition handler_save ::
  "(string \<Rightarrow> int option) \<Rightarrow> env \<Rightarrow> int \<Rightarrow> save_handler \<times> state \<Rightarrow> save_handler \<times> state" where
  "handler_save D ev duration hs =
     (case hs of (h, s) \<Rightarrow>
        (let h1 = setTimer h in
         if \<not> dirty s \<or> readOnly s \<or> inDialog h1 then (h1, s)
         else
           (let s1 = ctx_save D ev s in
            if sh_isDisposed h1 then (h1, s1)
            else
              (let h2 = h1\<lparr>interval := max (multiplier * duration) (minInterval h1)\<rparr>
               in (setTimer h2, s1)))))"

section \<open>The document manager\<close>

text \<open>
  What \<^verbatim>\<open>DocumentManager\<close> reads of a context (its identity, its current path
  \<^verbatim>\<open>context.path\<close> and the name of its model factory), of a widget factory and of a model
  factory. The registry is a parameter.
\<close>

record mcontext =
  ctx_id :: nat
  ctx_path :: string
  factoryName :: string

record widget_factory =
  wf_name :: string
  modelName :: "string option"

record model_factory =
  mf_name :: string

record registry =
  defaultWidgetFactory :: "string \<Rightarrow> widget_factory option"
  getWidgetFactory :: "string \<Rightarrow> widget_factory option"
  getModelFactory :: "string \<Rightarrow> model_factory option"

text \<open>What the manager asks of a context or of the widget manager, in order.\<close>

datatype mcall = FromStore nat | Save nat | CreateWidget string nat

record manager =
  contexts :: "mcontext list"
  nextId :: nat
  mcalls :: "mcall list"

datatype which = Open | Create

text \<open>\<^verbatim>\<open>_findContext\<close>\<close>

definition findContext :: "string \<Rightarrow> string \<Rightarrow> manager \<Rightarrow> mcontext option" where
  "findContext p fname m =
     find (\<lambda>c. factoryName c = fname \<and> ctx_path c = p) (contexts m)"

text \<open>\<^verbatim>\<open>_createContext\<close>: a new context object is pushed onto \<^verbatim>\<open>_contexts\<close>.\<close>

definition createContext :: "string \<Rightarrow> model_factory \<Rightarrow> manager \<Rightarrow> mcontext \<times> manager" where
  "createContext p factory m =
     (let c = \<lparr>ctx_id = nextId m, ctx_path = p, factoryName = mf_name factory\<rparr>
      in (c, m\<lparr>contexts := contexts m @ [c], nextId := Suc (nextId m)\<rparr>))"

text \<open>
  \<^verbatim>\<open>_onContextDisposed\<close>: \<^verbatim>\<open>ArrayExt.removeFirstOf\<close> removes the first occurrence of the
  context object; objects are told apart by \<open>ctx_id\<close>.
\<close>

fun removeFirstOf :: "nat \<Rightarrow> mcontext list \<Rightarrow> mcontext list" where
  "removeFirstOf i [] = []"
| "removeFirstOf i (c # cs) = (if ctx_id c = i then cs else c # removeFirstOf i cs)"

definition onContextDisposed :: "nat \<Rightarrow> manager \<Rightarrow> manager" where
  "onContextDisposed i m = m\<lparr>contexts := removeFirstOf i (contexts m)\<rparr>"

text \<open>
  A context assigns its \<^verbatim>\<open>_path\<close> (in \<^verbatim>\<open>_onFileChanged\<close>, \<^verbatim>\<open>_onSessionChanged\<close> and
  \<^verbatim>\<open>_finishSaveAs\<close>). The manager is not told and its table is not consulted; its
  lookups read the new path from then on.
\<close>

definition contextPathChanged :: "nat \<Rightarrow> string \<Rightarrow> manager \<Rightarrow> manager" where
  "contextPathChanged i p m =
     m\<lparr>contexts := map (\<lambda>c. if ctx_id c = i then c\<lparr>ctx_path := p\<rparr> else c) (contexts m)\<rparr>"

text \<open>\<^verbatim>\<open>_widgetFactoryFor\<close>\<close>

definition widgetFactoryFor :: "registry \<Rightarrow> string \<Rightarrow> string \<Rightarrow> widget_factory option" where
  "widgetFactoryFor reg p widgetName =
     (if widgetName = ''default'' then
        (case defaultWidgetFactory reg p of
           None \<Rightarrow> None
         | Some f \<Rightarrow> getWidgetFactory reg (wf_name f))
      else getWidgetFactory reg widgetName)"

text \<open>
  \<^verbatim>\<open>_createOrOpenDocument\<close>; the result is the widget, given by the name of its factory
  and its context.
\<close>

definition createOrOpenDocument ::
  "registry \<Rightarrow> which \<Rightarrow> string \<Rightarrow> string \<Rightarrow> manager \<Rightarrow> (string \<times> mcontext) option \<times> manager" where
  "createOrOpenDocument reg w p widgetName m =
     (case widgetFactoryFor reg p widgetName of
        None \<Rightarrow> (None, m)
      | Some widgetFactory \<Rightarrow>
          (let mname = (case modelName widgetFactory of
                          None \<Rightarrow> ''text''
                        | Some n \<Rightarrow> if n = [] then ''text'' else n) in
           case getModelFactory reg mname of
             None \<Rightarrow> (None, m)
           | Some factory \<Rightarrow>
               (let (context, m1) =
                  (case w of
                     Open \<Rightarrow>
                       (case findContext p (mf_name factory) m of
                          Some c \<Rightarrow> (c, m)
                        | None \<Rightarrow>
                            (let (c, m') = createContext p factory m
                             in (c, m'\<lparr>mcalls := mcalls m' @ [FromStore (ctx_id c)]\<rparr>)))
                   | Create \<Rightarrow>
                       (let (c, m') = createContext p factory m
                        in (c, m'\<lparr>mcalls := mcalls m' @ [Save (ctx_id c)]\<rparr>)))
                in (Some (wf_name widgetFactory, context),
                    m1\<lparr>mcalls := mcalls m1 @ [CreateWidget (wf_name widgetFactory) (ctx_id context)]\<rparr>))))"

definition createNew :: "registry \<Rightarrow> string \<Rightarrow> string \<Rightarrow> manager \<Rightarrow> (string \<times> mcontext) option \<times> manager" where
  "createNew reg p widgetName m = createOrOpenDocument reg Create p widgetName m"

definition open_doc :: "registry \<Rightarrow> string \<Rightarrow> string \<Rightarrow> manager \<Rightarrow> (string \<times> mcontext) option \<times> manager" where
  "open_doc reg p widgetName m = createOrOpenDocument reg Open p widgetName m"

section \<open>Runs and example data\<close>

text \<open>The events a run from \<open>s\<close> to \<open>s'\<close> added.\<close>

definition new_events :: "state \<Rightarrow> state \<Rightarrow> event list" where
  "new_events s s' = drop (length (events s)) (events s')"

text \<open>Sequential saves, one answer record per save.\<close>

fun saves :: "(string \<Rightarrow> int option) \<Rightarrow> env list \<Rightarrow> state \<Rightarrow> state" where
  "saves D [] s = s"
| "saves D (ev # evs) s = saves D evs (ctx_save D ev s)"

text \<open>The checkpoints the storage service holds for the path of the context.\<close>

definition stored :: "state \<Rightarrow> checkpoint list" where
  "stored s = store_list (checkpoints s) (c_path s)"

text \<open>
  A save in which every storage call succeeds and a conflict, if one is declared, is
  answered with OVERWRITE: the metadata fetch returns a model or a 404, and listing,
  checkpoint creation and the write succeed, the write returning writable metadata.
\<close>

definition succeeds :: "env \<Rightarrow> bool" where
  "succeeds ev =
     ((case r_get ev of Inr m \<Rightarrow> True | Inl e \<Rightarrow> hasStatus e 404) \<and>
      r_dialog ev = ''OVERWRITE'' \<and>
      r_listCheckpoints ev = None \<and>
      (case r_createCheckpoint ev of Inr cp \<Rightarrow> True | Inl e \<Rightarrow> False) \<and>
      (case r_save ev of Inr m \<Rightarrow> writable m | Inl e \<Rightarrow> False))"

text \<open>The path an event is addressed to, for the events that carry one.\<close>

fun targets :: "string \<Rightarrow> event \<Rightarrow> bool" where
  "targets p (Fetch q c) = (q = p)"
| "targets p (ListCheckpoints q) = (q = p)"
| "targets p (CreateCheckpoint q) = (q = p)"
| "targets p (Write q t f c) = (q = p)"
| "targets p e = True"

text \<open>The constructor of the manager, and the key of a context in its table.\<close>

definition DocumentManager_new :: manager where
  "DocumentManager_new = \<lparr>contexts = [], nextId = 0, mcalls = []\<rparr>"

definition key :: "mcontext \<Rightarrow> string \<times> string" where
  "key c = (ctx_path c, factoryName c)"

text \<open>
  What happens to a manager: a call of \<^verbatim>\<open>open\<close> or \<^verbatim>\<open>createNew\<close> with a path and a
  widget name, the disposal signal of a context, or a context changing its path.
\<close>

datatype mop =
    DoOpen string string
  | DoCreateNew string string
  | ContextDisposed nat
  | ContextPathChanged nat string

fun apply_mop :: "registry \<Rightarrow> mop \<Rightarrow> manager \<Rightarrow> manager" where
  "apply_mop reg (DoOpen p w) m = snd (open_doc reg p w m)"
| "apply_mop reg (DoCreateNew p w) m = snd (createNew reg p w m)"
| "apply_mop reg (ContextDisposed i) m = onContextDisposed i m"
| "apply_mop reg (ContextPathChanged i p) m = contextPathChanged i p m"

fun run_mops :: "registry \<Rightarrow> mop list \<Rightarrow> manager \<Rightarrow> manager" where
  "run_mops reg [] m = m"
| "run_mops reg (x # xs) m = run_mops reg xs (apply_mop reg x m)"

text \<open>The steps that are a call of \<^verbatim>\<open>open\<close> or a disposal.\<close>

fun open_or_disposal :: "mop \<Rightarrow> bool" where
  "open_or_disposal (DoOpen p w) = True"
| "open_or_disposal (ContextDisposed i) = True"
| "open_or_disposal x = False"

text \<open>A registry with one widget factory, the default for every path, on the text model.\<close>

definition example_registry :: registry where
  "example_registry =
     \<lparr>defaultWidgetFactory = (\<lambda>p. Some \<lparr>wf_name = ''Editor'', modelName = Some ''text''\<rparr>),
      getWidgetFactory = (\<lambda>n. if n = ''Editor''
                                then Some \<lparr>wf_name = ''Editor'', modelName = Some ''text''\<rparr>
                                else None),
      getModelFactory = (\<lambda>n. if n = ''text'' then Some \<lparr>mf_name = ''text''\<rparr> else None)\<rparr>"

text \<open>
  A date table for the examples: the milliseconds of four ISO strings, any other string
  being an invalid date.
\<close>

definition example_D :: "string \<Rightarrow> int option" where
  "example_D x =
     (if x = ''2017-01-01T00:00:00.000Z'' then Some 1483228800000
      else if x = ''2017-01-01T00:00:00.400Z'' then Some 1483228800400
      else if x = ''2017-01-01T00:00:00.600Z'' then Some 1483228800600
      else if x = ''2017-01-01T00:00:10.000Z'' then Some 1483228810000
      else None)"

definition example_model :: "string \<Rightarrow> contents_model" where
  "example_model t =
     \<lparr>path = ''notes.txt'', name = ''notes.txt'', mtype = ''file'',
      content = Undefined, writable = True, created = ''2017-01-01T00:00:00.000Z'',
      last_modified = Some t, mimetype = ''text/plain'', format = ''text''\<rparr>"

text \<open>A fresh, writable, dirty text document whose path has no checkpoint.\<close>

definition example_state :: state where
  "example_state =
     \<lparr>c_path = ''notes.txt'',
      contentsModel = example_model ''2017-01-01T00:00:00.000Z'',
      isDisposed = False, hasCheckpointed = False, dirty = True, readOnly = False,
      isCollaborative = False, mvalue = Str ''hello'', fileFormat = ''text'',
      contentType = ''file'', session_path = ''notes.txt'',
      session_name = ''notes.txt'', checkpoints = (\<lambda>p. []), events = []\<rparr>"

text \<open>
  Answers of the collaborators: the remote copy was last modified at \<open>t\<close>, the dialog
  is answered with \<open>b\<close>, and every storage call succeeds.
\<close>

definition example_env :: "string \<Rightarrow> string \<Rightarrow> env" where
  "example_env t b =
     \<lparr>r_get = Inr (example_model t), r_dialog = b, r_listCheckpoints = None,
      r_createCheckpoint = Inr \<lparr>cp_id = ''1'', cp_last_modified = t\<rparr>,
      r_save = Inr (example_model ''2017-01-01T00:00:10.000Z''),
      r_load = Inr ((example_model t)\<lparr>content := Str ''remote''\<rparr>)\<rparr>"

text \<open>
  The conversion in the spec's words, "\<^verbatim>\<open>\r\n\<close> or \<^verbatim>\<open>\r\<close> becomes \<^verbatim>\<open>\n\<close>", as two passes:
  every pair \<^verbatim>\<open>\r\n\<close> becomes \<^verbatim>\<open>\n\<close>, then every \<^verbatim>\<open>\r\<close> that is left becomes \<^verbatim>\<open>\n\<close>.
\<close>

fun replace_pairs :: "string \<Rightarrow> string" where
  "replace_pairs (c # d # cs) =
     (if c = CHR 0x0D \<and> d = CHR 0x0A then CHR 0x0A # replace_pairs cs
      else c # replace_pairs (d # cs))"
| "replace_pairs cs = cs"

definition spec_convert :: "string \<Rightarrow> string" where
  "spec_convert s = map (\<lambda>c. if c = CHR 0x0D then CHR 0x0A else c) (replace_pairs s)"

text \<open>Fetched text content \<^verbatim>\<open>"a\r\nb"\<close>.\<close>

definition example_crlf :: contents_model where
  "example_crlf = (example_model ''2017-01-01T00:00:00.000Z'')
     \<lparr>content := Str [CHR ''a'', CHR 0x0D, CHR 0x0A, CHR ''b'']\<rparr>"

text \<open>
  The checkpoint step of a save run from this state reaches \<^verbatim>\<open>createCheckpoint\<close>, if
  listing the checkpoints succeeds.
\<close>

definition creates :: "state \<Rightarrow> bool" where
  "creates t = (writable (contentsModel t) \<and> \<not> hasCheckpointed t \<and> stored t = [])"

text \<open>
  What decides whether a save creates the checkpoint. \<open>conflict\<close>: the metadata fetch
  returned a model and \<^verbatim>\<open>_maybeSave\<close> finds it more than 500 ms newer than the cached
  one. \<open>reaches_save\<close>: the save calls \<^verbatim>\<open>_save\<close>, because the model is collaborative, or
  the fetch was rejected with a 404, or it returned a model on a context that is not
  disposed and there is no conflict or the conflict dialog is answered OVERWRITE.
  \<open>checkpointing\<close>: the save reaches \<^verbatim>\<open>_save\<close> on a context that is not disposed, whose
  cached metadata is writable, whose flag \<^verbatim>\<open>_hasCheckpointed\<close> is not set and whose path has
  no checkpoint, and listing and creating the checkpoint both succeed.
  \<open>some_checkpointing\<close>: some save of a sequence is of that kind when its turn comes.
\<close>

definition conflict :: "(string \<Rightarrow> int option) \<Rightarrow> env \<Rightarrow> state \<Rightarrow> bool" where
  "conflict D ev s =
     (case r_get ev of
        Inr m \<Rightarrow>
          truthy (last_modified (contentsModel s)) \<and>
          exceedsTolerance (getTime D (last_modified m))
            (getTime D (last_modified (contentsModel s)))
      | Inl e \<Rightarrow> False)"

definition reaches_save :: "(string \<Rightarrow> int option) \<Rightarrow> env \<Rightarrow> state \<Rightarrow> bool" where
  "reaches_save D ev s =
     (isCollaborative s \<or>
      (case r_get ev of
         Inr m \<Rightarrow> \<not> isDisposed s \<and> (conflict D ev s \<longrightarrow> r_dialog ev = ''OVERWRITE'')
       | Inl e \<Rightarrow> hasStatus e 404))"

definition checkpointing :: "(string \<Rightarrow> int option) \<Rightarrow> env \<Rightarrow> state \<Rightarrow> bool" where
  "checkpointing D ev s =
     (reaches_save D ev s \<and> creates s \<and> \<not> isDisposed s \<and> r_listCheckpoints ev = None \<and>
      (case r_createCheckpoint ev of Inr cp \<Rightarrow> True | Inl e \<Rightarrow> False))"

fun some_checkpointing :: "(string \<Rightarrow> int option) \<Rightarrow> env list \<Rightarrow> state \<Rightarrow> bool" where
  "some_checkpointing D [] s = False"
| "some_checkpointing D (ev # evs) s =
     (checkpointing D ev s \<or> some_checkpointing D evs (ctx_save D ev s))"

text \<open>The example document, with one checkpoint already held for every path.\<close>

definition example_checkpointed :: state where
  "example_checkpointed = example_state
     \<lparr>checkpoints := (\<lambda>p. [\<lparr>cp_id = ''0'', cp_last_modified = ''2017-01-01T00:00:00.000Z''\<rparr>])\<rparr>"

text \<open>A rename notification for the example document.\<close>

definition example_rename :: changed_args where
  "example_rename =
     \<lparr>ctype = ''rename'',
      oldValue = Some (example_model ''2017-01-01T00:00:00.000Z''),
      newValue = Some ((example_model ''2017-01-01T00:00:00.400Z'')
                        \<lparr>path := ''dir/renamed.txt'', name := ''renamed.txt''\<rparr>)\<rparr>"

text \<open>
  A run of a manager with calls of \<^verbatim>\<open>open\<close> and a disposal only: a file opened twice,
  another file opened, the first context disposed and its file opened again.
\<close>

definition example_ops :: "mop list" where
  "example_ops = [DoOpen ''a.txt'' ''default'', DoOpen ''a.txt'' ''Editor'', DoOpen ''b.txt'' ''default'',
     ContextDisposed 0, DoOpen ''a.txt'' ''default'']"

section \<open>Events of the operations\<close>

lemmas ctx_defs = ctx_save_def save_then_def maybeSave_def timeConflict_def save_priv_def
  saveModel_def maybeCheckpoint_def listCheckpoints_def store_list_def createCheckpoint_def
  store_create_def catch403_def resolved_def revert_def loadModel_def updateModel_def
  updateContentsModel_def handleError_def emit_def fromJSON_def fromString_def toJSON_def
  toString_def

lemmas example_defs = example_state_def example_env_def example_model_def example_D_def

lemma strip_content:
  "\<lparr>path = path m, name = name m, mtype = mtype m, content = Undefined,
    writable = writable m, created = created m, last_modified = last_modified m,
    mimetype = mimetype m, format = format m\<rparr> = m\<lparr>content := Undefined\<rparr>"
  by (cases m) simp

lemma new_events_append: "events s' = events s @ es \<Longrightarrow> new_events s s' = es"
  by (simp add: new_events_def)

lemma events_emit: "events (emit e s) = events s @ [e]"
  by (simp add: emit_def)

lemma events_maybeCheckpoint:
  "\<exists>es. events (snd (maybeCheckpoint ev s)) = events s @ es \<and> (\<forall>t. ShowDialog t \<notin> set es)"
  by (auto simp: maybeCheckpoint_def listCheckpoints_def store_list_def createCheckpoint_def store_create_def catch403_def
        emit_def Let_def split: sum.splits prod.splits option.splits if_splits)

lemma events_save_priv:
  "\<exists>es. events (snd (save_priv ev s)) = events s @ es \<and> (\<forall>t. ShowDialog t \<notin> set es)"
proof -
  obtain es where es: "events (snd (maybeCheckpoint ev s)) = events s @ es"
      "\<forall>t. ShowDialog t \<notin> set es"
    using events_maybeCheckpoint by blast
  show ?thesis
  proof (cases "maybeCheckpoint ev s")
    case (Pair r s1)
    then show ?thesis using es
      by (cases r) (auto simp: save_priv_def saveModel_def emit_def Let_def)
  qed
qed

lemma events_resolved: "events (snd (resolved r)) = events (snd r)"
  by (auto simp: resolved_def split: prod.splits sum.splits)

lemma events_updateModel: "updateModel c s = Inr s' \<Longrightarrow> events s' = events s"
  by (auto simp: updateModel_def fromJSON_def fromString_def split: if_splits content.splits)

lemma events_loadModel: "events (snd (loadModel ev s)) = events s @ [Fetch (c_path s) True]"
proof (cases "r_load ev")
  case (Inl e)
  then show ?thesis by (simp add: loadModel_def emit_def)
next
  case (Inr c)
  then show ?thesis
    by (cases "updateModel c (emit (Fetch (c_path s) True) s)")
       (auto simp: loadModel_def Let_def emit_def dest: events_updateModel)
qed

lemma events_updateContentsModel:
  "events (updateContentsModel m s) = events s \<or>
   (\<exists>x. events (updateContentsModel m s) = events s @ [FileChanged x])"
  by (simp add: updateContentsModel_def emit_def Let_def)

lemma events_revert:
  "\<exists>es. events (revert ev s) = events s @ es \<and> ShowDialog ''File Changed'' \<notin> set es"
proof (cases "loadModel ev s")
  case (Pair r s1)
  then have e1: "events s1 = events s @ [Fetch (c_path s) True]"
    using events_loadModel[of ev s] by simp
  show ?thesis
  proof (cases r)
    case (Inl e)
    then show ?thesis using Pair e1 by (simp add: revert_def handleError_def emit_def)
  next
    case (Inr c)
    then show ?thesis using Pair e1 events_updateContentsModel[of c s1]
      by (auto simp: revert_def)
  qed
qed

lemma events_save_then:
  "\<exists>es. events (save_then (r, s)) = events s @ es \<and> ShowDialog ''File Changed'' \<notin> set es"
  by (auto simp: save_then_def updateContentsModel_def handleError_def emit_def Let_def
        split: sum.splits option.splits)

lemma events_timeConflict:
  "\<exists>es. events (snd (timeConflict ev m s)) = events s @ ShowDialog ''File Changed'' # es"
proof -
  let ?s1 = "emit (ShowDialog ''File Changed'') s"
  have e1: "events ?s1 = events s @ [ShowDialog ''File Changed'']" by (simp add: emit_def)
  obtain es where "events (snd (save_priv ev ?s1)) = events ?s1 @ es"
    using events_save_priv by blast
  moreover obtain es' where "events (revert ev ?s1) = events ?s1 @ es'"
    using events_revert by blast
  ultimately show ?thesis using e1
    by (auto simp: timeConflict_def Let_def events_resolved)
qed

lemma maybeSave_route:
  assumes "\<not> isDisposed s" "last_modified (contentsModel s) = Some tc" "tc \<noteq> []"
    "r_get ev = Inr m" "D tc = Some T" "getTime D (last_modified m) = Some T'"
  shows "maybeSave D ev s =
     (if T' - T > 500 then timeConflict ev m (emit (Fetch (c_path s) False) s)
      else resolved (save_priv ev (emit (Fetch (c_path s) False) s)))"
  using assms by (simp add: maybeSave_def Let_def emit_def)

section \<open>Conflict detection\<close>

text \<open>
  C1. On a live, non-collaborative context whose cached metadata has a last_modified
  that reads as time \<open>T\<close>, a save whose metadata fetch returns last_modified \<open>T'\<close> opens
  the "File Changed" dialog if and only if \<open>T' - T > 500\<close> (milliseconds). In that case
  the save continues from the conflict dialog; otherwise it goes directly to the write
  path \<^verbatim>\<open>_save\<close>.
\<close>

theorem C1_conflict_threshold:
  assumes "\<not> isCollaborative s" and "\<not> isDisposed s"
    and "last_modified (contentsModel s) = Some tc" and "tc \<noteq> []" and "D tc = Some T"
    and "r_get ev = Inr m" and "last_modified m = Some td" and "D td = Some T'"
  shows "(ShowDialog ''File Changed'' \<in> set (new_events s (ctx_save D ev s))) = (T' - T > 500)
    \<and> ctx_save D ev s =
        save_then (if T' - T > 500
                   then timeConflict ev m (emit (Fetch (c_path s) False) s)
                   else resolved (save_priv ev (emit (Fetch (c_path s) False) s)))"
proof -
  let ?s1 = "emit (Fetch (c_path s) False) s"
  have e1: "events ?s1 = events s @ [Fetch (c_path s) False]" by (simp add: emit_def)
  have "getTime D (last_modified m) = Some T'" using assms by simp
  then have route: "maybeSave D ev s =
     (if T' - T > 500 then timeConflict ev m ?s1 else resolved (save_priv ev ?s1))"
    using assms maybeSave_route by blast
  then have second: "ctx_save D ev s =
        save_then (if T' - T > 500 then timeConflict ev m ?s1
                   else resolved (save_priv ev ?s1))"
    using assms(1) by (simp add: ctx_save_def)
  have first: "(ShowDialog ''File Changed'' \<in> set (new_events s (ctx_save D ev s))) = (T' - T > 500)"
  proof (cases "T' - T > 500")
    case True
    obtain r s2 where rs: "timeConflict ev m ?s1 = (r, s2)"
      by (cases "timeConflict ev m ?s1")
    obtain es where es: "events s2 = events ?s1 @ ShowDialog ''File Changed'' # es"
      using events_timeConflict[of ev m ?s1] rs by auto
    obtain es' where "events (save_then (r, s2)) = events s2 @ es'"
      using events_save_then by blast
    then have "events (ctx_save D ev s) =
        events s @ (Fetch (c_path s) False # ShowDialog ''File Changed'' # es @ es')"
      using second True rs es e1 by simp
    then show ?thesis using True by (simp add: new_events_append)
  next
    case False
    obtain r s2 where rs: "resolved (save_priv ev ?s1) = (r, s2)"
      by (cases "resolved (save_priv ev ?s1)")
    obtain es where es: "events s2 = events ?s1 @ es" "\<forall>t. ShowDialog t \<notin> set es"
      using events_save_priv[of ev ?s1] events_resolved[of "save_priv ev ?s1"] rs by auto
    obtain es' where es': "events (save_then (r, s2)) = events s2 @ es'"
        "ShowDialog ''File Changed'' \<notin> set es'"
      using events_save_then by blast
    then have "events (ctx_save D ev s) = events s @ (Fetch (c_path s) False # es @ es')"
      using second False rs es e1 by simp
    then show ?thesis using False es es' by (simp add: new_events_append)
  qed
  show ?thesis using first second by blast
qed

text \<open>
  Witness for C1: with the cached time at 00:00:00.000, a remote time 400 ms later
  opens no conflict dialog and a remote time 600 ms later opens it.
\<close>

theorem C1_conflict_threshold_witness:
  "ShowDialog ''File Changed'' \<notin> set (new_events example_state
      (ctx_save example_D (example_env ''2017-01-01T00:00:00.400Z'' ''CANCEL'') example_state))
   \<and> ShowDialog ''File Changed'' \<in> set (new_events example_state
      (ctx_save example_D (example_env ''2017-01-01T00:00:00.600Z'' ''CANCEL'') example_state))"
proof -
  have a: "\<not> isCollaborative example_state" "\<not> isDisposed example_state"
    "last_modified (contentsModel example_state) = Some ''2017-01-01T00:00:00.000Z''"
    "''2017-01-01T00:00:00.000Z'' \<noteq> []"
    "example_D ''2017-01-01T00:00:00.000Z'' = Some 1483228800000"
    by (simp_all add: example_state_def example_model_def example_D_def)
  have b: "r_get (example_env ''2017-01-01T00:00:00.400Z'' ''CANCEL'')
             = Inr (example_model ''2017-01-01T00:00:00.400Z'')"
    "last_modified (example_model ''2017-01-01T00:00:00.400Z'') = Some ''2017-01-01T00:00:00.400Z''"
    "example_D ''2017-01-01T00:00:00.400Z'' = Some 1483228800400"
    by (simp_all add: example_env_def example_model_def example_D_def)
  have c: "r_get (example_env ''2017-01-01T00:00:00.600Z'' ''CANCEL'')
             = Inr (example_model ''2017-01-01T00:00:00.600Z'')"
    "last_modified (example_model ''2017-01-01T00:00:00.600Z'') = Some ''2017-01-01T00:00:00.600Z''"
    "example_D ''2017-01-01T00:00:00.600Z'' = Some 1483228800600"
    by (simp_all add: example_env_def example_model_def example_D_def)
  show ?thesis
    using C1_conflict_threshold[OF a b, THEN conjunct1]
      C1_conflict_threshold[OF a c, THEN conjunct1]
    by simp
qed

text \<open>
  C2. The claim is that a conflict dialog answered with Cancel leaves the dirty flag
  true and the cached metadata as they were. The code run on a dirty document whose
  remote copy is 600 ms newer, with the dialog cancelled: \<^verbatim>\<open>_timeConflict\<close> resolves with
  \<^verbatim>\<open>undefined\<close>, the continuation of \<^verbatim>\<open>save\<close> clears the dirty flag, and the call of
  \<^verbatim>\<open>_updateContentsModel(undefined)\<close> throws, which ends in a "File Save Error" dialog.
  The cached metadata is unchanged; the dirty flag is not.
\<close>

theorem C2_cancel_clears_dirty:
  "dirty example_state
   \<and> \<not> dirty (ctx_save example_D (example_env ''2017-01-01T00:00:00.600Z'' ''CANCEL'') example_state)
   \<and> contentsModel (ctx_save example_D (example_env ''2017-01-01T00:00:00.600Z'' ''CANCEL'') example_state)
       = contentsModel example_state
   \<and> new_events example_state
        (ctx_save example_D (example_env ''2017-01-01T00:00:00.600Z'' ''CANCEL'') example_state)
       = [Fetch ''notes.txt'' False, ShowDialog ''File Changed'', ShowDialog ''File Save Error'']"
  by (simp add: ctx_defs example_defs new_events_def Let_def)

section \<open>Cached metadata\<close>

text \<open>
  C10. Applying new remote metadata replaces the cached metadata with a copy of it
  whose content is undefined, and emits fileChanged, with that copy, if and only if the
  last_modified cached before was absent (undefined or empty) or differs from the new
  one; otherwise nothing is emitted. Nothing else of the context changes. A save that
  resolved with metadata, a revert whose load succeeded and a rename notification (see
  \<open>onFileChanged_rename\<close>) apply their metadata this way on a live context.
\<close>

theorem C10_update_contents_model:
  "contentsModel (updateContentsModel m s) = m\<lparr>content := Undefined\<rparr>
   \<and> new_events s (updateContentsModel m s) =
       (if \<not> truthy (last_modified (contentsModel s))
           \<or> last_modified m \<noteq> last_modified (contentsModel s)
        then [FileChanged (m\<lparr>content := Undefined\<rparr>)] else [])
   \<and> (updateContentsModel m s)\<lparr>contentsModel := contentsModel s, events := events s\<rparr> = s
   \<and> (\<not> isDisposed s \<longrightarrow>
         save_then (Inr (Some m), s) = updateContentsModel m (s\<lparr>dirty := False\<rparr>))
   \<and> (loadModel ev s = (Inr m, s1) \<and> \<not> isDisposed s1 \<longrightarrow>
         revert ev s = updateContentsModel m s1)"
  by (simp add: updateContentsModel_def save_then_def revert_def Let_def emit_def
        new_events_def strip_content)

text \<open>
  Witness for C10: metadata with the last_modified already cached is stored silently;
  metadata with another last_modified is announced, also at the end of a save and of
  a revert.
\<close>

theorem C10_update_contents_model_witness:
  "new_events example_state
      (updateContentsModel (example_model ''2017-01-01T00:00:00.000Z'') example_state) = []
   \<and> new_events example_state
      (updateContentsModel (example_model ''2017-01-01T00:00:10.000Z'') example_state)
     = [FileChanged (example_model ''2017-01-01T00:00:10.000Z'')]
   \<and> save_then (Inr (Some (example_model ''2017-01-01T00:00:10.000Z'')), example_state)
     = updateContentsModel (example_model ''2017-01-01T00:00:10.000Z'')
         (example_state\<lparr>dirty := False\<rparr>)
   \<and> revert (example_env ''2017-01-01T00:00:10.000Z'' ''REVERT'') example_state
     = updateContentsModel ((example_model ''2017-01-01T00:00:10.000Z'')\<lparr>content := Str ''remote''\<rparr>)
         (snd (loadModel (example_env ''2017-01-01T00:00:10.000Z'' ''REVERT'') example_state))"
proof -
  let ?ev = "example_env ''2017-01-01T00:00:10.000Z'' ''REVERT''"
  let ?m = "(example_model ''2017-01-01T00:00:10.000Z'')\<lparr>content := Str ''remote''\<rparr>"
  have live: "\<not> isDisposed example_state" by (simp add: example_state_def)
  have a: "new_events example_state
      (updateContentsModel (example_model ''2017-01-01T00:00:00.000Z'') example_state) = []"
    using C10_update_contents_model[of "example_model ''2017-01-01T00:00:00.000Z''" example_state]
    by (simp add: example_state_def example_model_def)
  have b: "new_events example_state
      (updateContentsModel (example_model ''2017-01-01T00:00:10.000Z'') example_state)
     = [FileChanged (example_model ''2017-01-01T00:00:10.000Z'')]"
    using C10_update_contents_model[of "example_model ''2017-01-01T00:00:10.000Z''" example_state]
    by (simp add: example_state_def example_model_def)
  have c: "save_then (Inr (Some (example_model ''2017-01-01T00:00:10.000Z'')), example_state)
     = updateContentsModel (example_model ''2017-01-01T00:00:10.000Z'')
         (example_state\<lparr>dirty := False\<rparr>)"
    using C10_update_contents_model[of "example_model ''2017-01-01T00:00:10.000Z''" example_state]
      live by blast
  have l: "loadModel ?ev example_state = (Inr ?m, snd (loadModel ?ev example_state))"
    "\<not> isDisposed (snd (loadModel ?ev example_state))"
    by (simp_all add: loadModel_def updateModel_def fromString_def emit_def example_defs Let_def)
  have d: "revert ?ev example_state = updateContentsModel ?m (snd (loadModel ?ev example_state))"
    using C10_update_contents_model[of ?m example_state ?ev "snd (loadModel ?ev example_state)"] l
    by blast
  show ?thesis using a b c d by blast
qed

section \<open>Session changes\<close>

text \<open>
  C9, in the form the code satisfies. A session property change of type path, to a
  session path that differs from the path of the context, sets the path of the context to the session
  path, resets hasCheckpointed and emits pathChanged; the cached metadata is left as it
  was.
\<close>

theorem C9_session_path_change:
  assumes "session_path s \<noteq> c_path s"
  shows "c_path (onSessionChanged ''path'' s) = session_path s
    \<and> \<not> hasCheckpointed (onSessionChanged ''path'' s)
    \<and> new_events s (onSessionChanged ''path'' s) = [PathChanged (session_path s)]
    \<and> contentsModel (onSessionChanged ''path'' s) = contentsModel s"
  using assms by (simp add: onSessionChanged_def Let_def emit_def new_events_def)

text \<open>Witness for C9: the session of the example document moves to \<open>renamed.txt\<close>.\<close>

theorem C9_session_path_change_witness:
  "c_path (onSessionChanged ''path'' (example_state\<lparr>session_path := ''renamed.txt''\<rparr>))
     = ''renamed.txt''
   \<and> new_events (example_state\<lparr>session_path := ''renamed.txt''\<rparr>)
        (onSessionChanged ''path'' (example_state\<lparr>session_path := ''renamed.txt''\<rparr>))
     = [PathChanged ''renamed.txt'']"
proof -
  have h: "session_path (example_state\<lparr>session_path := ''renamed.txt''\<rparr>)
             \<noteq> c_path (example_state\<lparr>session_path := ''renamed.txt''\<rparr>)"
    by (simp add: example_state_def)
  show ?thesis using C9_session_path_change[OF h] by simp
qed

text \<open>
  Counterexample for C9 as stated: the session of the document \<open>notes.txt\<close> changes its
  path to \<open>renamed.txt\<close>. The path of the context follows; the cached metadata is the
  same as before and still names \<open>notes.txt\<close>.
\<close>

theorem C9_counterexample:
  "session_path (example_state\<lparr>session_path := ''renamed.txt''\<rparr>)
     \<noteq> c_path (example_state\<lparr>session_path := ''renamed.txt''\<rparr>)
   \<and> c_path (onSessionChanged ''path'' (example_state\<lparr>session_path := ''renamed.txt''\<rparr>))
       = ''renamed.txt''
   \<and> contentsModel (onSessionChanged ''path'' (example_state\<lparr>session_path := ''renamed.txt''\<rparr>))
       = contentsModel example_state
   \<and> path (contentsModel (onSessionChanged ''path''
         (example_state\<lparr>session_path := ''renamed.txt''\<rparr>))) = ''notes.txt''"
  by (simp add: onSessionChanged_def Let_def emit_def example_defs)

section \<open>Autosave\<close>

text \<open>
  C6. When the autosave timeout fires on a dirty, writable document with no dialog
  open, and the handler is not disposed when the save has finished, a save that took
  \<open>d\<close> milliseconds sets the interval to the larger of \<open>10 * d\<close> and the minimum
  interval, and the timer is rearmed with it. The minimum interval of a handler
  constructed without a save interval is 120000 ms.
\<close>

theorem C6_autosave_interval:
  assumes "dirty s" and "\<not> readOnly s" and "\<not> inDialog h" and "\<not> sh_isDisposed h"
  shows "interval (fst (handler_save D ev d (h, s))) = max (10 * d) (minInterval h)
    \<and> minInterval (fst (handler_save D ev d (h, s))) = minInterval h
    \<and> autosaveTimer (fst (handler_save D ev d (h, s))) =
        (if isActive h then Some (max (10 * d) (minInterval h)) else None)
    \<and> minInterval (SaveHandler_new None) = 120000
    \<and> interval (SaveHandler_new None) = 120000"
  using assms
  by (simp add: handler_save_def setTimer_def multiplier_def SaveHandler_new_def Let_def)

text \<open>
  Witness for C6: with the default minimum, a save of 50 s gives 500000 ms and a save of
  1 s gives 120000 ms.
\<close>

theorem C6_autosave_interval_witness:
  "interval (fst (handler_save example_D (example_env ''2017-01-01T00:00:00.000Z'' ''CANCEL'')
       50000 (start (SaveHandler_new None), example_state))) = 500000
   \<and> interval (fst (handler_save example_D (example_env ''2017-01-01T00:00:00.000Z'' ''CANCEL'')
       1000 (start (SaveHandler_new None), example_state))) = 120000"
proof -
  have h: "dirty example_state" "\<not> readOnly example_state"
    "\<not> inDialog (start (SaveHandler_new None))"
    "\<not> sh_isDisposed (start (SaveHandler_new None))"
    by (simp_all add: example_state_def start_def setTimer_def SaveHandler_new_def Let_def)
  have m: "minInterval (start (SaveHandler_new None)) = 120000"
    by (simp add: start_def setTimer_def SaveHandler_new_def Let_def)
  show ?thesis
    using C6_autosave_interval[OF h, of example_D
          "example_env ''2017-01-01T00:00:00.000Z'' ''CANCEL''" 50000, THEN conjunct1]
      C6_autosave_interval[OF h, of example_D
          "example_env ''2017-01-01T00:00:00.000Z'' ''CANCEL''" 1000, THEN conjunct1] m
    by simp
qed

section \<open>Line endings\<close>

lemma replace_crlf_spec: "replace_crlf s = spec_convert s"
  unfolding spec_convert_def
  by (induction s rule: replace_pairs.induct) auto

lemma replace_crlf_no_cr: "CHR 0x0D \<notin> set (replace_crlf s)"
  by (induction s rule: replace_crlf.induct) (auto split: list.splits)

lemma replace_crlf_id: "CHR 0x0D \<notin> set s \<Longrightarrow> replace_crlf s = s"
  by (induction s rule: replace_crlf.induct) (auto split: list.splits)

lemma replace_crlf_changes: "(replace_crlf s \<noteq> s) = (CHR 0x0D \<in> set s)"
  using replace_crlf_no_cr[of s] replace_crlf_id[of s] by auto

lemma updateModel_text:
  assumes "format contents \<noteq> ''json''" and "content contents = Str c"
  shows "updateModel contents s =
           Inr (s\<lparr>dirty := (replace_crlf c \<noteq> c), mvalue := Str (replace_crlf c)\<rparr>)"
  using assms by (simp add: updateModel_def fromString_def replace_crlf_changes replace_crlf_id)

text \<open>
  C5. For fetched contents whose format is not json and whose content is the string
  \<open>c\<close>, \<^verbatim>\<open>updateModel\<close>, and with it \<^verbatim>\<open>loadModel\<close> and \<^verbatim>\<open>revert\<close>, put the converted
  string into the model and set the dirty flag to whether the conversion changed the
  string. The converted string is what the two passes of the spec give, it holds no
  \<^verbatim>\<open>\r\<close>, and it differs from \<open>c\<close> exactly when \<open>c\<close> holds a \<^verbatim>\<open>\r\<close>.
\<close>

theorem C5_line_endings:
  assumes "format contents \<noteq> ''json''" and "content contents = Str c"
  shows "updateModel contents s =
           Inr (s\<lparr>dirty := (replace_crlf c \<noteq> c), mvalue := Str (replace_crlf c)\<rparr>)
    \<and> replace_crlf c = spec_convert c
    \<and> CHR 0x0D \<notin> set (replace_crlf c)
    \<and> (replace_crlf c \<noteq> c) = (CHR 0x0D \<in> set c)
    \<and> (r_load ev = Inr contents \<longrightarrow>
          fst (loadModel ev s) = Inr contents
        \<and> mvalue (snd (loadModel ev s)) = Str (replace_crlf c)
        \<and> dirty (snd (loadModel ev s)) = (replace_crlf c \<noteq> c)
        \<and> mvalue (revert ev s) = Str (replace_crlf c)
        \<and> dirty (revert ev s) = (replace_crlf c \<noteq> c))"
proof -
  have um: "\<And>t. updateModel contents t =
           Inr (t\<lparr>dirty := (replace_crlf c \<noteq> c), mvalue := Str (replace_crlf c)\<rparr>)"
    using assms updateModel_text by blast
  have "r_load ev = Inr contents \<longrightarrow>
          fst (loadModel ev s) = Inr contents
        \<and> mvalue (snd (loadModel ev s)) = Str (replace_crlf c)
        \<and> dirty (snd (loadModel ev s)) = (replace_crlf c \<noteq> c)
        \<and> mvalue (revert ev s) = Str (replace_crlf c)
        \<and> dirty (revert ev s) = (replace_crlf c \<noteq> c)"
    by (simp add: revert_def loadModel_def um Let_def updateContentsModel_def emit_def)
  then show ?thesis
    using um replace_crlf_spec replace_crlf_no_cr replace_crlf_changes by blast
qed

text \<open>
  Witness for C5: a clean model that loads or reverts to \<^verbatim>\<open>"a\r\nb"\<close> holds \<^verbatim>\<open>"a\nb"\<close>
  and is dirty.
\<close>

theorem C5_line_endings_witness:
  "mvalue (revert ((example_env ''2017-01-01T00:00:00.000Z'' ''CANCEL'')\<lparr>r_load := Inr example_crlf\<rparr>)
      (example_state\<lparr>dirty := False\<rparr>)) = Str [CHR ''a'', CHR 0x0A, CHR ''b'']
   \<and> dirty (revert ((example_env ''2017-01-01T00:00:00.000Z'' ''CANCEL'')\<lparr>r_load := Inr example_crlf\<rparr>)
      (example_state\<lparr>dirty := False\<rparr>))
   \<and> mvalue (snd (loadModel ((example_env ''2017-01-01T00:00:00.000Z'' ''CANCEL'')\<lparr>r_load := Inr example_crlf\<rparr>)
      (example_state\<lparr>dirty := False\<rparr>))) = Str [CHR ''a'', CHR 0x0A, CHR ''b'']
   \<and> dirty (snd (loadModel ((example_env ''2017-01-01T00:00:00.000Z'' ''CANCEL'')\<lparr>r_load := Inr example_crlf\<rparr>)
      (example_state\<lparr>dirty := False\<rparr>)))"
proof -
  have h: "format example_crlf \<noteq> ''json''"
    "content example_crlf = Str [CHR ''a'', CHR 0x0D, CHR 0x0A, CHR ''b'']"
    by (simp_all add: example_crlf_def example_model_def)
  have l: "r_load ((example_env ''2017-01-01T00:00:00.000Z'' ''CANCEL'')\<lparr>r_load := Inr example_crlf\<rparr>)
             = Inr example_crlf"
    by simp
  have r: "replace_crlf [CHR ''a'', CHR 0x0D, CHR 0x0A, CHR ''b''] = [CHR ''a'', CHR 0x0A, CHR ''b'']"
    by simp
  show ?thesis
    using C5_line_endings[OF h, of "example_state\<lparr>dirty := False\<rparr>"
        "(example_env ''2017-01-01T00:00:00.000Z'' ''CANCEL'')\<lparr>r_load := Inr example_crlf\<rparr>"] l r
    by simp
qed

section \<open>Checkpoints\<close>


lemma updateModel_store:
  "updateModel c s = Inr s' \<Longrightarrow>
     c_path s' = c_path s \<and> checkpoints s' = checkpoints s
     \<and> hasCheckpointed s' = hasCheckpointed s \<and> isDisposed s' = isDisposed s"
  by (auto simp: updateModel_def fromJSON_def fromString_def split: if_splits content.splits)

lemma loadModel_store:
  "c_path (snd (loadModel ev s)) = c_path s \<and> checkpoints (snd (loadModel ev s)) = checkpoints s
   \<and> hasCheckpointed (snd (loadModel ev s)) = hasCheckpointed s
   \<and> isDisposed (snd (loadModel ev s)) = isDisposed s"
proof (cases "r_load ev")
  case (Inl e)
  then show ?thesis by (simp add: loadModel_def emit_def)
next
  case (Inr c)
  then show ?thesis
    by (cases "updateModel c (emit (Fetch (c_path s) True) s)")
       (auto simp: loadModel_def Let_def emit_def dest: updateModel_store)
qed

lemma updateContentsModel_store:
  "c_path (updateContentsModel m s) = c_path s
   \<and> checkpoints (updateContentsModel m s) = checkpoints s
   \<and> hasCheckpointed (updateContentsModel m s) = hasCheckpointed s
   \<and> isDisposed (updateContentsModel m s) = isDisposed s"
  by (simp add: updateContentsModel_def emit_def Let_def)

lemma revert_store:
  "c_path (revert ev s) = c_path s \<and> checkpoints (revert ev s) = checkpoints s
   \<and> hasCheckpointed (revert ev s) = hasCheckpointed s \<and> isDisposed (revert ev s) = isDisposed s"
proof (cases "loadModel ev s")
  case (Pair r s1)
  then have "c_path s1 = c_path s \<and> checkpoints s1 = checkpoints s
      \<and> hasCheckpointed s1 = hasCheckpointed s \<and> isDisposed s1 = isDisposed s"
    using loadModel_store[of ev s] by simp
  then show ?thesis using Pair updateContentsModel_store
    by (cases r) (simp_all add: revert_def handleError_def emit_def)
qed

lemma save_then_store:
  "c_path (save_then (r, s)) = c_path s \<and> checkpoints (save_then (r, s)) = checkpoints s
   \<and> hasCheckpointed (save_then (r, s)) = hasCheckpointed s
   \<and> isDisposed (save_then (r, s)) = isDisposed s"
  by (simp add: save_then_def updateContentsModel_def handleError_def emit_def Let_def
        split: sum.splits option.splits)

lemma maybeCheckpoint_skip:
  "\<not> writable (contentsModel s) \<or> hasCheckpointed s \<Longrightarrow> maybeCheckpoint ev s = (Inr (), s)"
  by (auto simp: maybeCheckpoint_def)

lemma maybeCheckpoint_list_error:
  "writable (contentsModel s) \<Longrightarrow> \<not> hasCheckpointed s \<Longrightarrow> r_listCheckpoints ev = Some e \<Longrightarrow>
   maybeCheckpoint ev s =
     (if hasStatus e 403 then Inr () else Inl e, emit (ListCheckpoints (c_path s)) s)"
  by (simp add: maybeCheckpoint_def listCheckpoints_def store_list_def catch403_def Let_def)

lemma maybeCheckpoint_existing:
  "writable (contentsModel s) \<Longrightarrow> \<not> hasCheckpointed s \<Longrightarrow> r_listCheckpoints ev = None \<Longrightarrow>
   isDisposed s \<or> stored s \<noteq> [] \<Longrightarrow>
   maybeCheckpoint ev s = (Inr (), emit (ListCheckpoints (c_path s)) s)"
  by (auto simp: maybeCheckpoint_def listCheckpoints_def store_list_def catch403_def Let_def emit_def stored_def)

lemma maybeCheckpoint_create:
  "writable (contentsModel s) \<Longrightarrow> \<not> hasCheckpointed s \<Longrightarrow> r_listCheckpoints ev = None \<Longrightarrow>
   \<not> isDisposed s \<Longrightarrow> stored s = [] \<Longrightarrow> r_createCheckpoint ev = Inr cp \<Longrightarrow>
   maybeCheckpoint ev s =
     (Inr (), s\<lparr>hasCheckpointed := True,
                checkpoints := (checkpoints s)(c_path s := [cp]),
                events := events s @ [ListCheckpoints (c_path s), CreateCheckpoint (c_path s)]\<rparr>)"
  by (simp add: maybeCheckpoint_def listCheckpoints_def store_list_def createCheckpoint_def store_create_def catch403_def
        Let_def emit_def stored_def)

lemma maybeCheckpoint_create_error:
  "writable (contentsModel s) \<Longrightarrow> \<not> hasCheckpointed s \<Longrightarrow> r_listCheckpoints ev = None \<Longrightarrow>
   \<not> isDisposed s \<Longrightarrow> stored s = [] \<Longrightarrow> r_createCheckpoint ev = Inl e \<Longrightarrow>
   maybeCheckpoint ev s =
     (if hasStatus e 403 then Inr () else Inl e,
      s\<lparr>events := events s @ [ListCheckpoints (c_path s), CreateCheckpoint (c_path s)]\<rparr>)"
  by (simp add: maybeCheckpoint_def listCheckpoints_def store_list_def createCheckpoint_def store_create_def catch403_def
        Let_def emit_def stored_def)

lemma maybeCheckpoint_store:
  "c_path (snd (maybeCheckpoint ev s)) = c_path s
   \<and> isDisposed (snd (maybeCheckpoint ev s)) = isDisposed s
   \<and> (checkpoints (snd (maybeCheckpoint ev s)) = checkpoints s
      \<or> (stored s = [] \<and> (\<exists>cp. checkpoints (snd (maybeCheckpoint ev s)) = (checkpoints s)(c_path s := [cp]))))"
proof (cases "\<not> writable (contentsModel s) \<or> hasCheckpointed s")
  case True
  then show ?thesis using maybeCheckpoint_skip by simp
next
  case False
  then have w: "writable (contentsModel s)" "\<not> hasCheckpointed s" by auto
  show ?thesis
  proof (cases "r_listCheckpoints ev")
    case (Some e)
    then show ?thesis using maybeCheckpoint_list_error[OF w] by (simp add: emit_def)
  next
    case None
    show ?thesis
    proof (cases "isDisposed s \<or> stored s \<noteq> []")
      case True
      then show ?thesis using maybeCheckpoint_existing[OF w None] by (simp add: emit_def)
    next
      case False
      then have f: "\<not> isDisposed s" "stored s = []" by auto
      show ?thesis
      proof (cases "r_createCheckpoint ev")
        case (Inl e)
        then show ?thesis using maybeCheckpoint_create_error[OF w None f] by simp
      next
        case (Inr cp)
        then show ?thesis using maybeCheckpoint_create[OF w None f] f by auto
      qed
    qed
  qed
qed

lemma save_priv_store:
  "c_path (snd (save_priv ev s)) = c_path s
   \<and> isDisposed (snd (save_priv ev s)) = isDisposed s
   \<and> (checkpoints (snd (save_priv ev s)) = checkpoints s
      \<or> (stored s = [] \<and> (\<exists>cp. checkpoints (snd (save_priv ev s)) = (checkpoints s)(c_path s := [cp]))))"
proof (cases "maybeCheckpoint ev s")
  case (Pair r s1)
  then have "snd (save_priv ev s) = s1 \<or> snd (save_priv ev s) = snd (saveModel ev s1)"
    by (cases r) (simp_all add: save_priv_def)
  moreover have "c_path (snd (saveModel ev s1)) = c_path s1
      \<and> isDisposed (snd (saveModel ev s1)) = isDisposed s1
      \<and> checkpoints (snd (saveModel ev s1)) = checkpoints s1"
    by (simp add: saveModel_def emit_def Let_def)
  ultimately show ?thesis using maybeCheckpoint_store[of ev s] Pair by auto
qed

lemma stored_emit: "stored (emit e s) = stored s" "c_path (emit e s) = c_path s"
  "checkpoints (emit e s) = checkpoints s" "isDisposed (emit e s) = isDisposed s"
  by (simp_all add: stored_def store_list_def emit_def)

lemma snd_resolved: "snd (resolved r) = snd r"
  by (auto simp: resolved_def split: prod.splits sum.splits)

lemma timeConflict_store:
  "c_path (snd (timeConflict ev m s)) = c_path s
   \<and> isDisposed (snd (timeConflict ev m s)) = isDisposed s
   \<and> (checkpoints (snd (timeConflict ev m s)) = checkpoints s
      \<or> (stored s = [] \<and> (\<exists>cp. checkpoints (snd (timeConflict ev m s)) = (checkpoints s)(c_path s := [cp]))))"
  using save_priv_store[of ev "emit (ShowDialog ''File Changed'') s"]
    revert_store[of ev "emit (ShowDialog ''File Changed'') s"]
  by (simp add: timeConflict_def Let_def snd_resolved stored_emit)

lemma maybeSave_store:
  "c_path (snd (maybeSave D ev s)) = c_path s
   \<and> isDisposed (snd (maybeSave D ev s)) = isDisposed s
   \<and> (checkpoints (snd (maybeSave D ev s)) = checkpoints s
      \<or> (stored s = [] \<and> (\<exists>cp. checkpoints (snd (maybeSave D ev s)) = (checkpoints s)(c_path s := [cp]))))"
  using save_priv_store[of ev "emit (Fetch (c_path s) False) s"]
    timeConflict_store[of ev _ "emit (Fetch (c_path s) False) s"]
  by (simp add: maybeSave_def Let_def snd_resolved stored_emit split: sum.splits)

lemma ctx_save_store:
  "c_path (ctx_save D ev s) = c_path s
   \<and> isDisposed (ctx_save D ev s) = isDisposed s
   \<and> (checkpoints (ctx_save D ev s) = checkpoints s
      \<or> (stored s = [] \<and> (\<exists>cp. checkpoints (ctx_save D ev s) = (checkpoints s)(c_path s := [cp]))))"
proof -
  let ?r = "if \<not> isCollaborative s then maybeSave D ev s else resolved (save_priv ev s)"
  have "c_path (snd ?r) = c_path s \<and> isDisposed (snd ?r) = isDisposed s
   \<and> (checkpoints (snd ?r) = checkpoints s
      \<or> (stored s = [] \<and> (\<exists>cp. checkpoints (snd ?r) = (checkpoints s)(c_path s := [cp]))))"
    using maybeSave_store[of D ev s] save_priv_store[of ev s] by (simp add: snd_resolved)
  moreover have "ctx_save D ev s = save_then (fst ?r, snd ?r)" by (simp add: ctx_save_def)
  ultimately show ?thesis using save_then_store[of "fst ?r" "snd ?r"] by simp
qed

lemma ctx_save_stored:
  "stored (ctx_save D ev s) = stored s
   \<or> (stored s = [] \<and> (\<exists>cp. stored (ctx_save D ev s) = [cp]))"
  using ctx_save_store[of D ev s] by (auto simp: stored_def store_list_def)

lemma saves_stored_nonempty:
  "stored s \<noteq> [] \<Longrightarrow> stored (saves D evs s) = stored s"
proof (induction evs arbitrary: s)
  case Nil
  then show ?case by simp
next
  case (Cons ev evs)
  have "stored (ctx_save D ev s) = stored s" using ctx_save_stored[of D ev s] Cons.prems by auto
  then show ?case using Cons by simp
qed

lemma saves_stored_at_most_one:
  "stored s = [] \<Longrightarrow> length (stored (saves D evs s)) \<le> 1"
proof (induction evs arbitrary: s)
  case Nil
  then show ?case by simp
next
  case (Cons ev evs)
  consider "stored (ctx_save D ev s) = []" | cp where "stored (ctx_save D ev s) = [cp]"
    using ctx_save_stored[of D ev s] Cons.prems by auto
  then show ?case
  proof cases
    case 1
    then show ?thesis using Cons.IH by simp
  next
    case 2
    then show ?thesis using saves_stored_nonempty[of "ctx_save D ev s" D evs] by simp
  qed
qed

lemma succeedsD:
  assumes "succeeds ev"
  shows "r_dialog ev = ''OVERWRITE''" "r_listCheckpoints ev = None"
    "\<exists>cp. r_createCheckpoint ev = Inr cp" "\<exists>m. r_save ev = Inr m \<and> writable m"
    "(\<exists>m. r_get ev = Inr m) \<or> (\<exists>e. r_get ev = Inl e \<and> hasStatus e 404)"
  using assms by (auto simp: succeeds_def split: sum.splits)

lemma save_priv_succeeds:
  assumes "succeeds ev" and "\<not> isDisposed t"
  shows "\<exists>m es s1. save_priv ev t = (Inr m, s1) \<and> r_save ev = Inr m \<and> writable m
    \<and> events s1 = events t @ es @ [Write (c_path t) (contentType t) (fileFormat t) (mvalue t)]
    \<and> (\<forall>x. ShowDialog x \<notin> set es)
    \<and> c_path s1 = c_path t \<and> \<not> isDisposed s1
    \<and> hasCheckpointed s1 = (hasCheckpointed t \<or> creates t)
    \<and> (creates t \<longrightarrow> (\<exists>cp. stored s1 = [cp]))
    \<and> (\<not> creates t \<longrightarrow> stored s1 = stored t)"
proof -
  obtain m where m: "r_save ev = Inr m" "writable m" using succeedsD(4)[OF assms(1)] by blast
  obtain cp where cp: "r_createCheckpoint ev = Inr cp" using succeedsD(3)[OF assms(1)] by blast
  have l: "r_listCheckpoints ev = None" using succeedsD(2)[OF assms(1)] .
  show ?thesis
  proof (cases "\<not> writable (contentsModel t) \<or> hasCheckpointed t")
    case True
    then show ?thesis using m assms(2) maybeCheckpoint_skip[OF True, of ev]
      by (auto simp: save_priv_def saveModel_def emit_def toJSON_def toString_def stored_def store_list_def creates_def)
  next
    case False
    then have w: "writable (contentsModel t)" "\<not> hasCheckpointed t" by auto
    show ?thesis
    proof (cases "stored t = []")
      case True
      show ?thesis using m w True assms(2) maybeCheckpoint_create[OF w l assms(2) True cp]
        by (simp add: save_priv_def saveModel_def emit_def toJSON_def toString_def stored_def store_list_def creates_def)
    next
      case False
      then have "isDisposed t \<or> stored t \<noteq> []" by simp
      then show ?thesis using m w False assms(2) maybeCheckpoint_existing[OF w l]
        by (simp add: save_priv_def saveModel_def emit_def toJSON_def toString_def stored_def store_list_def creates_def)
    qed
  qed
qed

lemma save_then_resolved_succeeds:
  assumes "succeeds ev" and "\<not> isDisposed t"
  shows "\<exists>m es. r_save ev = Inr m \<and> writable m
    \<and> contentsModel (save_then (resolved (save_priv ev t))) = m\<lparr>content := Undefined\<rparr>
    \<and> events (save_then (resolved (save_priv ev t))) = events t @ es
    \<and> Write (c_path t) (contentType t) (fileFormat t) (mvalue t) \<in> set es
    \<and> (\<forall>x. ShowDialog x \<notin> set es)
    \<and> \<not> dirty (save_then (resolved (save_priv ev t)))
    \<and> c_path (save_then (resolved (save_priv ev t))) = c_path t
    \<and> \<not> isDisposed (save_then (resolved (save_priv ev t)))
    \<and> hasCheckpointed (save_then (resolved (save_priv ev t))) = (hasCheckpointed t \<or> creates t)
    \<and> (creates t \<longrightarrow> (\<exists>cp. stored (save_then (resolved (save_priv ev t))) = [cp]))
    \<and> (\<not> creates t \<longrightarrow> stored (save_then (resolved (save_priv ev t))) = stored t)"
proof -
  obtain m es s1 where m: "save_priv ev t = (Inr m, s1)" "r_save ev = Inr m" "writable m"
    "events s1 = events t @ es @ [Write (c_path t) (contentType t) (fileFormat t) (mvalue t)]"
    "\<forall>x. ShowDialog x \<notin> set es" "c_path s1 = c_path t" "\<not> isDisposed s1"
    "hasCheckpointed s1 = (hasCheckpointed t \<or> creates t)"
    "creates t \<longrightarrow> (\<exists>cp. stored s1 = [cp])" "\<not> creates t \<longrightarrow> stored s1 = stored t"
    using save_priv_succeeds[OF assms] by blast
  let ?f = "updateContentsModel m (s1\<lparr>dirty := False\<rparr>)"
  have fin: "save_then (resolved (save_priv ev t)) = ?f"
    using m by (simp add: resolved_def save_then_def Let_def)
  have ev': "\<exists>es'. events ?f = events s1 @ es' \<and> (\<forall>x. ShowDialog x \<notin> set es')"
    by (simp add: updateContentsModel_def emit_def Let_def)
  have rest: "contentsModel ?f = m\<lparr>content := Undefined\<rparr>"
    "\<not> dirty ?f" "c_path ?f = c_path s1" "isDisposed ?f = isDisposed s1"
    "hasCheckpointed ?f = hasCheckpointed s1" "stored ?f = stored s1"
    by (simp_all add: updateContentsModel_def emit_def Let_def strip_content stored_def store_list_def)
  obtain es' where es': "events ?f = events s1 @ es'" "\<forall>x. ShowDialog x \<notin> set es'"
    using ev' by blast
  let ?es = "es @ [Write (c_path t) (contentType t) (fileFormat t) (mvalue t)] @ es'"
  have "events ?f = events t @ ?es" using es' m by simp
  moreover have "Write (c_path t) (contentType t) (fileFormat t) (mvalue t) \<in> set ?es" by simp
  moreover have "\<forall>x. ShowDialog x \<notin> set ?es" using es' m by simp
  ultimately show ?thesis using m rest fin by metis
qed

lemma creates_events: "creates (s\<lparr>events := es\<rparr>) = creates s"
  by (simp add: creates_def stored_def store_list_def)

lemma ctx_save_entry:
  assumes "succeeds ev" and "\<not> isDisposed s"
  shows "\<exists>pre. (\<forall>e\<in>set pre. e = Fetch (c_path s) False \<or> e = ShowDialog ''File Changed'')
    \<and> ctx_save D ev s = save_then (resolved (save_priv ev (s\<lparr>events := events s @ pre\<rparr>)))"
proof (cases "isCollaborative s")
  case True
  have "ctx_save D ev s = save_then (resolved (save_priv ev (s\<lparr>events := events s @ []\<rparr>)))"
    using True by (simp add: ctx_save_def)
  then show ?thesis by (intro exI[of _ "[]"]) simp
next
  case False
  let ?s1 = "s\<lparr>events := events s @ [Fetch (c_path s) False]\<rparr>"
  let ?s2 = "s\<lparr>events := events s @ [Fetch (c_path s) False, ShowDialog ''File Changed'']\<rparr>"
  have d: "r_dialog ev = ''OVERWRITE''" using succeedsD(1)[OF assms(1)] .
  have "maybeSave D ev s = resolved (save_priv ev ?s1) \<or> maybeSave D ev s = resolved (save_priv ev ?s2)"
    using succeedsD(5)[OF assms(1)] assms(2) d
    by (auto simp: maybeSave_def timeConflict_def emit_def Let_def)
  then consider "ctx_save D ev s = save_then (resolved (save_priv ev ?s1))"
    | "ctx_save D ev s = save_then (resolved (save_priv ev ?s2))"
    using False by (auto simp: ctx_save_def)
  then show ?thesis
  proof cases
    case 1
    then show ?thesis by (intro exI[of _ "[Fetch (c_path s) False]"]) simp
  next
    case 2
    then show ?thesis
      by (intro exI[of _ "[Fetch (c_path s) False, ShowDialog ''File Changed'']"]) simp
  qed
qed

lemma ctx_save_succeeds:
  assumes "succeeds ev" and "\<not> isDisposed s"
  shows "\<exists>m es. r_save ev = Inr m \<and> writable m
    \<and> contentsModel (ctx_save D ev s) = m\<lparr>content := Undefined\<rparr>
    \<and> events (ctx_save D ev s) = events s @ es
    \<and> Write (c_path s) (contentType s) (fileFormat s) (mvalue s) \<in> set es
    \<and> (\<forall>x. ShowDialog x \<in> set es \<longrightarrow> x = ''File Changed'')
    \<and> \<not> dirty (ctx_save D ev s)
    \<and> c_path (ctx_save D ev s) = c_path s
    \<and> \<not> isDisposed (ctx_save D ev s)
    \<and> hasCheckpointed (ctx_save D ev s) = (hasCheckpointed s \<or> creates s)
    \<and> (creates s \<longrightarrow> (\<exists>cp. stored (ctx_save D ev s) = [cp]))
    \<and> (\<not> creates s \<longrightarrow> stored (ctx_save D ev s) = stored s)"
proof -
  obtain pre where pre: "\<forall>e\<in>set pre. e = Fetch (c_path s) False \<or> e = ShowDialog ''File Changed''"
    "ctx_save D ev s = save_then (resolved (save_priv ev (s\<lparr>events := events s @ pre\<rparr>)))"
    using ctx_save_entry[OF assms] by blast
  let ?t = "s\<lparr>events := events s @ pre\<rparr>"
  have t: "\<not> isDisposed ?t" "c_path ?t = c_path s" "contentType ?t = contentType s"
    "fileFormat ?t = fileFormat s" "mvalue ?t = mvalue s" "hasCheckpointed ?t = hasCheckpointed s"
    "stored ?t = stored s" "creates ?t = creates s" "events ?t = events s @ pre"
    using assms(2) by (simp_all add: stored_def store_list_def creates_def)
  obtain m es where m: "r_save ev = Inr m" "writable m"
    "contentsModel (ctx_save D ev s) = m\<lparr>content := Undefined\<rparr>"
    "events (ctx_save D ev s) = events ?t @ es"
    "Write (c_path ?t) (contentType ?t) (fileFormat ?t) (mvalue ?t) \<in> set es"
    "\<forall>x. ShowDialog x \<notin> set es"
    "\<not> dirty (ctx_save D ev s)"
    "c_path (ctx_save D ev s) = c_path ?t"
    "\<not> isDisposed (ctx_save D ev s)"
    "hasCheckpointed (ctx_save D ev s) = (hasCheckpointed ?t \<or> creates ?t)"
    "creates ?t \<longrightarrow> (\<exists>cp. stored (ctx_save D ev s) = [cp])"
    "\<not> creates ?t \<longrightarrow> stored (ctx_save D ev s) = stored ?t"
    using save_then_resolved_succeeds[OF assms(1) t(1)] unfolding pre(2)[symmetric] by blast
  have e: "events (ctx_save D ev s) = events s @ (pre @ es)" using m(4) by simp
  have w: "Write (c_path s) (contentType s) (fileFormat s) (mvalue s) \<in> set (pre @ es)"
    using m(5) t by simp
  have d: "\<forall>x. ShowDialog x \<in> set (pre @ es) \<longrightarrow> x = ''File Changed''"
    using m(6) pre(1) by auto
  show ?thesis
    using m(1,2,3,7,8,9,10,11,12) e w d unfolding t by blast
qed

lemma saves_succeed_live:
  "\<forall>ev\<in>set evs. succeeds ev \<Longrightarrow> \<not> isDisposed s \<Longrightarrow> hasCheckpointed s \<Longrightarrow>
   hasCheckpointed (saves D evs s) \<and> \<not> isDisposed (saves D evs s)"
proof (induction evs arbitrary: s)
  case Nil
  then show ?case by simp
next
  case (Cons ev evs)
  have "hasCheckpointed (ctx_save D ev s) \<and> \<not> isDisposed (ctx_save D ev s)"
    using ctx_save_succeeds[of ev s D] Cons.prems by auto
  then show ?case using Cons by simp
qed

lemma saves_succeed_one:
  assumes "\<forall>ev\<in>set evs. succeeds ev" and "\<not> isDisposed s" and "evs \<noteq> []" and "creates s"
  shows "length (stored (saves D evs s)) = 1 \<and> hasCheckpointed (saves D evs s)"
proof -
  obtain ev rest where evs: "evs = ev # rest" using assms(3) by (cases evs) auto
  have first: "\<exists>cp. stored (ctx_save D ev s) = [cp]" "hasCheckpointed (ctx_save D ev s)"
    "\<not> isDisposed (ctx_save D ev s)"
    using ctx_save_succeeds[of ev s D] assms evs by auto
  then have "stored (saves D rest (ctx_save D ev s)) = stored (ctx_save D ev s)"
    using saves_stored_nonempty[of "ctx_save D ev s" D rest] by auto
  moreover have "hasCheckpointed (saves D rest (ctx_save D ev s))"
    using saves_succeed_live[of rest "ctx_save D ev s" D] first assms(1) evs by simp
  ultimately show ?thesis using first evs by auto
qed

text \<open>The checkpoint step changes the store only when it creates the checkpoint.\<close>

lemma maybeCheckpoint_unchanged:
  assumes "\<not> (creates s \<and> \<not> isDisposed s \<and> r_listCheckpoints ev = None
             \<and> (\<exists>cp. r_createCheckpoint ev = Inr cp))"
  shows "checkpoints (snd (maybeCheckpoint ev s)) = checkpoints s
       \<and> hasCheckpointed (snd (maybeCheckpoint ev s)) = hasCheckpointed s"
proof (cases "\<not> writable (contentsModel s) \<or> hasCheckpointed s")
  case True
  then show ?thesis using maybeCheckpoint_skip by simp
next
  case False
  then have w: "writable (contentsModel s)" "\<not> hasCheckpointed s" by auto
  show ?thesis
  proof (cases "r_listCheckpoints ev")
    case (Some e)
    then show ?thesis using maybeCheckpoint_list_error[OF w] by (simp add: emit_def)
  next
    case None
    show ?thesis
    proof (cases "isDisposed s \<or> stored s \<noteq> []")
      case True
      then show ?thesis using maybeCheckpoint_existing[OF w None] by (simp add: emit_def)
    next
      case False
      then have f: "\<not> isDisposed s" "stored s = []" by auto
      then obtain e where "r_createCheckpoint ev = Inl e"
        using assms w None by (cases "r_createCheckpoint ev") (auto simp: creates_def)
      then show ?thesis using maybeCheckpoint_create_error[OF w None f] by simp
    qed
  qed
qed

lemma maybeCheckpoint_creates:
  assumes "creates s" and "\<not> isDisposed s" and "r_listCheckpoints ev = None"
    and "r_createCheckpoint ev = Inr cp"
  shows "stored (snd (maybeCheckpoint ev s)) = [cp] \<and> hasCheckpointed (snd (maybeCheckpoint ev s))"
proof -
  have w: "writable (contentsModel s)" "\<not> hasCheckpointed s" "stored s = []"
    using assms(1) by (simp_all add: creates_def)
  show ?thesis
    using maybeCheckpoint_create[OF w(1,2) assms(3) assms(2) w(3) assms(4)]
    by (simp add: stored_def store_list_def)
qed

lemma save_priv_after_checkpoint:
  "checkpoints (snd (save_priv ev s)) = checkpoints (snd (maybeCheckpoint ev s))
   \<and> hasCheckpointed (snd (save_priv ev s)) = hasCheckpointed (snd (maybeCheckpoint ev s))"
proof (cases "maybeCheckpoint ev s")
  case (Pair r s1)
  then show ?thesis
    by (cases r) (simp_all add: save_priv_def saveModel_def emit_def Let_def)
qed

text \<open>A save that reaches \<^verbatim>\<open>_save\<close> runs it on the state with the events so far.\<close>

lemma ctx_save_reaches:
  assumes "reaches_save D ev s"
  shows "\<exists>pre. ctx_save D ev s = save_then (resolved (save_priv ev (s\<lparr>events := events s @ pre\<rparr>)))"
proof (cases "isCollaborative s")
  case True
  have "ctx_save D ev s = save_then (resolved (save_priv ev (s\<lparr>events := events s @ []\<rparr>)))"
    using True by (simp add: ctx_save_def)
  then show ?thesis by blast
next
  case False
  let ?s1 = "s\<lparr>events := events s @ [Fetch (c_path s) False]\<rparr>"
  let ?s2 = "s\<lparr>events := events s @ [Fetch (c_path s) False, ShowDialog ''File Changed'']\<rparr>"
  have "maybeSave D ev s = resolved (save_priv ev ?s1) \<or> maybeSave D ev s = resolved (save_priv ev ?s2)"
  proof (cases "r_get ev")
    case (Inl e)
    then show ?thesis using assms False
      by (simp add: reaches_save_def maybeSave_def emit_def Let_def)
  next
    case (Inr m)
    then have live: "\<not> isDisposed s" and d: "conflict D ev s \<longrightarrow> r_dialog ev = ''OVERWRITE''"
      using assms False by (simp_all add: reaches_save_def)
    show ?thesis
    proof (cases "conflict D ev s")
      case True
      then show ?thesis using Inr live d
        by (simp add: conflict_def maybeSave_def timeConflict_def emit_def Let_def)
    next
      case False
      then show ?thesis using Inr live
        by (auto simp: conflict_def maybeSave_def emit_def Let_def)
    qed
  qed
  then show ?thesis using False by (auto simp: ctx_save_def)
qed

lemma ctx_save_not_reaches:
  assumes "\<not> reaches_save D ev s"
  shows "checkpoints (ctx_save D ev s) = checkpoints s
       \<and> hasCheckpointed (ctx_save D ev s) = hasCheckpointed s"
proof -
  let ?s1 = "emit (Fetch (c_path s) False) s"
  have nc: "\<not> isCollaborative s" using assms by (simp add: reaches_save_def)
  have f1: "checkpoints ?s1 = checkpoints s" "hasCheckpointed ?s1 = hasCheckpointed s"
    by (simp_all add: emit_def)
  have "checkpoints (snd (maybeSave D ev s)) = checkpoints s
       \<and> hasCheckpointed (snd (maybeSave D ev s)) = hasCheckpointed s"
  proof (cases "r_get ev")
    case (Inl e)
    then show ?thesis using assms nc f1
      by (simp add: reaches_save_def maybeSave_def Let_def)
  next
    case (Inr m)
    show ?thesis
    proof (cases "isDisposed s")
      case True
      then show ?thesis using Inr f1 by (simp add: maybeSave_def Let_def emit_def)
    next
      case False
      then have c: "conflict D ev s" and d: "r_dialog ev \<noteq> ''OVERWRITE''"
        using assms nc Inr by (auto simp: reaches_save_def)
      let ?s2 = "emit (ShowDialog ''File Changed'') ?s1"
      have "maybeSave D ev s = timeConflict ev m ?s1"
        using c Inr False by (simp add: conflict_def maybeSave_def Let_def emit_def)
      moreover have "checkpoints (snd (timeConflict ev m ?s1)) = checkpoints s
          \<and> hasCheckpointed (snd (timeConflict ev m ?s1)) = hasCheckpointed s"
        using d False revert_store[of ev ?s2]
        by (simp add: timeConflict_def Let_def emit_def)
      ultimately show ?thesis by simp
    qed
  qed
  moreover have "ctx_save D ev s = save_then (fst (maybeSave D ev s), snd (maybeSave D ev s))"
    using nc by (simp add: ctx_save_def)
  ultimately show ?thesis
    using save_then_store[of "fst (maybeSave D ev s)" "snd (maybeSave D ev s)"] by simp
qed

lemma ctx_save_checkpointing:
  assumes "checkpointing D ev s"
  shows "\<exists>cp. r_createCheckpoint ev = Inr cp \<and> stored (ctx_save D ev s) = [cp]
           \<and> hasCheckpointed (ctx_save D ev s)"
proof -
  obtain cp where cp: "r_createCheckpoint ev = Inr cp"
    using assms by (cases "r_createCheckpoint ev") (auto simp: checkpointing_def)
  have h: "reaches_save D ev s" "creates s" "\<not> isDisposed s" "r_listCheckpoints ev = None"
    using assms by (simp_all add: checkpointing_def)
  obtain pre where pre:
    "ctx_save D ev s = save_then (resolved (save_priv ev (s\<lparr>events := events s @ pre\<rparr>)))"
    using ctx_save_reaches[OF h(1)] by blast
  let ?t = "s\<lparr>events := events s @ pre\<rparr>"
  have t: "creates ?t" "\<not> isDisposed ?t" "c_path ?t = c_path s"
    using h by (simp_all add: creates_def stored_def)
  have mc: "stored (snd (maybeCheckpoint ev ?t)) = [cp]" "hasCheckpointed (snd (maybeCheckpoint ev ?t))"
    using maybeCheckpoint_creates[OF t(1,2) h(4) cp] by simp_all
  let ?r = "resolved (save_priv ev ?t)"
  have sp: "checkpoints (snd ?r) = checkpoints (snd (maybeCheckpoint ev ?t))"
    "hasCheckpointed (snd ?r) = hasCheckpointed (snd (maybeCheckpoint ev ?t))"
    "c_path (snd ?r) = c_path ?t"
    using save_priv_after_checkpoint[of ev ?t] save_priv_store[of ev ?t] by (simp_all add: snd_resolved)
  have mcp: "c_path (snd (maybeCheckpoint ev ?t)) = c_path ?t"
    using maybeCheckpoint_store[of ev ?t] by simp
  have "ctx_save D ev s = save_then (fst ?r, snd ?r)" using pre by simp
  then have "checkpoints (ctx_save D ev s) = checkpoints (snd ?r)"
    "hasCheckpointed (ctx_save D ev s) = hasCheckpointed (snd ?r)"
    "c_path (ctx_save D ev s) = c_path (snd ?r)"
    using save_then_store[of "fst ?r" "snd ?r"] by simp_all
  then have "stored (ctx_save D ev s) = [cp]" "hasCheckpointed (ctx_save D ev s)"
    using sp mc mcp by (simp_all add: stored_def)
  then show ?thesis using cp by blast
qed

lemma ctx_save_no_checkpointing:
  assumes "\<not> checkpointing D ev s"
  shows "stored (ctx_save D ev s) = stored s \<and> hasCheckpointed (ctx_save D ev s) = hasCheckpointed s"
proof (cases "reaches_save D ev s")
  case False
  then show ?thesis using ctx_save_not_reaches[OF False] ctx_save_store[of D ev s]
    by (simp add: stored_def)
next
  case True
  obtain pre where pre:
    "ctx_save D ev s = save_then (resolved (save_priv ev (s\<lparr>events := events s @ pre\<rparr>)))"
    using ctx_save_reaches[OF True] by blast
  let ?t = "s\<lparr>events := events s @ pre\<rparr>"
  have "\<not> (creates ?t \<and> \<not> isDisposed ?t \<and> r_listCheckpoints ev = None
             \<and> (\<exists>cp. r_createCheckpoint ev = Inr cp))"
    using assms True by (auto simp: checkpointing_def creates_def stored_def)
  then have mc: "checkpoints (snd (maybeCheckpoint ev ?t)) = checkpoints ?t"
    "hasCheckpointed (snd (maybeCheckpoint ev ?t)) = hasCheckpointed ?t"
    using maybeCheckpoint_unchanged[of ?t ev] by simp_all
  let ?r = "resolved (save_priv ev ?t)"
  have sp: "checkpoints (snd ?r) = checkpoints (snd (maybeCheckpoint ev ?t))"
    "hasCheckpointed (snd ?r) = hasCheckpointed (snd (maybeCheckpoint ev ?t))"
    using save_priv_after_checkpoint[of ev ?t] by (simp_all add: snd_resolved)
  have "ctx_save D ev s = save_then (fst ?r, snd ?r)" using pre by simp
  then have "checkpoints (ctx_save D ev s) = checkpoints (snd ?r)"
    "hasCheckpointed (ctx_save D ev s) = hasCheckpointed (snd ?r)"
    using save_then_store[of "fst ?r" "snd ?r"] by simp_all
  then show ?thesis using sp mc ctx_save_store[of D ev s] by (simp add: stored_def)
qed

lemma checkpointing_needs_empty: "checkpointing D ev s \<Longrightarrow> stored s = [] \<and> \<not> hasCheckpointed s"
  by (simp add: checkpointing_def creates_def)

lemma some_checkpointing_needs_empty:
  "some_checkpointing D evs s \<Longrightarrow> stored s = [] \<and> \<not> hasCheckpointed s"
proof (induction evs arbitrary: s)
  case Nil
  then show ?case by simp
next
  case (Cons ev evs)
  show ?case
  proof (cases "checkpointing D ev s")
    case True
    then show ?thesis by (rule checkpointing_needs_empty)
  next
    case False
    then have "some_checkpointing D evs (ctx_save D ev s)" using Cons.prems by simp
    then have "stored (ctx_save D ev s) = [] \<and> \<not> hasCheckpointed (ctx_save D ev s)"
      by (rule Cons.IH)
    then show ?thesis using ctx_save_no_checkpointing[OF False] by simp
  qed
qed

lemma saves_flag_kept:
  "hasCheckpointed s \<Longrightarrow> hasCheckpointed (saves D evs s) \<and> stored (saves D evs s) = stored s"
proof (induction evs arbitrary: s)
  case Nil
  then show ?case by simp
next
  case (Cons ev evs)
  have "\<not> checkpointing D ev s" using Cons.prems checkpointing_needs_empty by blast
  then have "hasCheckpointed (ctx_save D ev s)" "stored (ctx_save D ev s) = stored s"
    using ctx_save_no_checkpointing Cons.prems by simp_all
  then show ?case using Cons.IH[of "ctx_save D ev s"] by simp
qed

lemma saves_count:
  "length (stored (saves D evs s)) =
     length (stored s) + (if some_checkpointing D evs s then 1 else 0)"
proof (induction evs arbitrary: s)
  case Nil
  then show ?case by simp
next
  case (Cons ev evs)
  show ?case
  proof (cases "checkpointing D ev s")
    case True
    then obtain cp where cp: "stored (ctx_save D ev s) = [cp]" "hasCheckpointed (ctx_save D ev s)"
      using ctx_save_checkpointing by blast
    have "stored (saves D evs (ctx_save D ev s)) = stored (ctx_save D ev s)"
      using saves_flag_kept[OF cp(2)] by simp
    moreover have "stored s = []" using True checkpointing_needs_empty by blast
    ultimately show ?thesis using True cp by simp
  next
    case False
    then have "stored (ctx_save D ev s) = stored s"
      using ctx_save_no_checkpointing by blast
    then show ?thesis using False Cons.IH[of "ctx_save D ev s"] by simp
  qed
qed

lemma saves_first_checkpointing:
  assumes "checkpointing D ev s"
  shows "length (stored (saves D (ev # evs) s)) = 1 \<and> hasCheckpointed (saves D (ev # evs) s)"
proof -
  obtain cp where cp: "stored (ctx_save D ev s) = [cp]" "hasCheckpointed (ctx_save D ev s)"
    using ctx_save_checkpointing[OF assms] by blast
  then show ?thesis using saves_flag_kept[OF cp(2), of D evs] by simp
qed

text \<open>
  C3, in the form the code satisfies. The number of checkpoints that a sequence of saves
  adds for the path is one if some save of the sequence is checkpointing and zero
  otherwise. A checkpointing save leaves exactly one checkpoint and the flag set,
  whatever the saves after it do; a save that is not checkpointing leaves the store and
  the flag as they were (a conflict answered REVERT or cancelled, for instance, never
  reaches \<^verbatim>\<open>_save\<close>). Once the flag is set, or once the path has a checkpoint, no save adds
  one. In particular one or more saves in which every storage call succeeds and
  conflicts are answered OVERWRITE, on a fresh, writable, live context whose path has
  no checkpoint, create exactly one. A 403 response to listing the checkpoints is
  swallowed: \<^verbatim>\<open>_save\<close> goes on to the write with no checkpoint created, resolves with what
  the write returns and opens no dialog.
\<close>

theorem C3_checkpoint_once:
  "length (stored (saves D evs s)) =
      length (stored s) + (if some_checkpointing D evs s then 1 else 0)
   \<and> (checkpointing D ev s \<longrightarrow>
        length (stored (saves D (ev # evs) s)) = 1 \<and> hasCheckpointed (saves D (ev # evs) s))
   \<and> (\<not> checkpointing D ev s \<longrightarrow>
        stored (ctx_save D ev s) = stored s
        \<and> hasCheckpointed (ctx_save D ev s) = hasCheckpointed s)
   \<and> (hasCheckpointed s \<longrightarrow>
        stored (saves D evs s) = stored s \<and> hasCheckpointed (saves D evs s))
   \<and> (stored s \<noteq> [] \<longrightarrow> stored (saves D evs s) = stored s)
   \<and> (stored s = [] \<longrightarrow> length (stored (saves D evs s)) \<le> 1)
   \<and> (stored s = [] \<and> writable (contentsModel s) \<and> \<not> hasCheckpointed s \<and> \<not> isDisposed s
        \<and> evs \<noteq> [] \<and> (\<forall>ev\<in>set evs. succeeds ev)
      \<longrightarrow> length (stored (saves D evs s)) = 1 \<and> hasCheckpointed (saves D evs s))
   \<and> (writable (contentsModel s) \<and> \<not> hasCheckpointed s
        \<and> r_listCheckpoints ev = Some (ResponseError 403)
      \<longrightarrow> save_priv ev s = saveModel ev (emit (ListCheckpoints (c_path s)) s)
        \<and> fst (save_priv ev s) = r_save ev
        \<and> checkpoints (snd (save_priv ev s)) = checkpoints s
        \<and> (\<forall>x. ShowDialog x \<notin> set (new_events s (snd (save_priv ev s)))))"
proof -
  have n: "length (stored (saves D evs s)) =
      length (stored s) + (if some_checkpointing D evs s then 1 else 0)"
    by (rule saves_count)
  have f: "checkpointing D ev s \<longrightarrow>
        length (stored (saves D (ev # evs) s)) = 1 \<and> hasCheckpointed (saves D (ev # evs) s)"
    using saves_first_checkpointing by blast
  have g: "\<not> checkpointing D ev s \<longrightarrow>
        stored (ctx_save D ev s) = stored s
        \<and> hasCheckpointed (ctx_save D ev s) = hasCheckpointed s"
    using ctx_save_no_checkpointing by blast
  have k: "hasCheckpointed s \<longrightarrow>
        stored (saves D evs s) = stored s \<and> hasCheckpointed (saves D evs s)"
    using saves_flag_kept by blast
  have a: "stored s \<noteq> [] \<longrightarrow> stored (saves D evs s) = stored s"
    using saves_stored_nonempty by blast
  have b: "stored s = [] \<longrightarrow> length (stored (saves D evs s)) \<le> 1"
    using saves_stored_at_most_one by blast
  have c: "stored s = [] \<and> writable (contentsModel s) \<and> \<not> hasCheckpointed s \<and> \<not> isDisposed s
        \<and> evs \<noteq> [] \<and> (\<forall>ev\<in>set evs. succeeds ev)
      \<longrightarrow> length (stored (saves D evs s)) = 1 \<and> hasCheckpointed (saves D evs s)"
    using saves_succeed_one[of evs s D] by (simp add: creates_def)
  have d: "writable (contentsModel s) \<and> \<not> hasCheckpointed s
        \<and> r_listCheckpoints ev = Some (ResponseError 403)
      \<longrightarrow> save_priv ev s = saveModel ev (emit (ListCheckpoints (c_path s)) s)
        \<and> fst (save_priv ev s) = r_save ev
        \<and> checkpoints (snd (save_priv ev s)) = checkpoints s
        \<and> (\<forall>x. ShowDialog x \<notin> set (new_events s (snd (save_priv ev s))))"
    using maybeCheckpoint_list_error[of s ev "ResponseError 403"]
    by (auto simp: save_priv_def saveModel_def emit_def new_events_def)
  show ?thesis using n f g k a b c d by blast
qed

text \<open>
  Witness for C3: three successful saves of the example document create one checkpoint
  and set the flag; a save whose conflict is answered REVERT creates none; with a
  checkpoint already stored three saves create none; a 403 on listing leaves the store
  as it was and the write returns its metadata.
\<close>

theorem C3_checkpoint_once_witness:
  "length (stored (saves example_D
      [example_env ''2017-01-01T00:00:00.000Z'' ''OVERWRITE'',
       example_env ''2017-01-01T00:00:00.000Z'' ''OVERWRITE'',
       example_env ''2017-01-01T00:00:00.000Z'' ''OVERWRITE''] example_state)) = 1
   \<and> hasCheckpointed (saves example_D
      [example_env ''2017-01-01T00:00:00.000Z'' ''OVERWRITE'',
       example_env ''2017-01-01T00:00:00.000Z'' ''OVERWRITE'',
       example_env ''2017-01-01T00:00:00.000Z'' ''OVERWRITE''] example_state)
   \<and> stored (ctx_save example_D (example_env ''2017-01-01T00:00:00.600Z'' ''REVERT'') example_state)
      = stored example_state
   \<and> stored (saves example_D
      [example_env ''2017-01-01T00:00:00.000Z'' ''OVERWRITE'',
       example_env ''2017-01-01T00:00:00.000Z'' ''OVERWRITE'',
       example_env ''2017-01-01T00:00:00.000Z'' ''OVERWRITE''] example_checkpointed)
      = stored example_checkpointed
   \<and> fst (save_priv ((example_env ''2017-01-01T00:00:00.000Z'' ''OVERWRITE'')
           \<lparr>r_listCheckpoints := Some (ResponseError 403)\<rparr>) example_state)
      = Inr (example_model ''2017-01-01T00:00:10.000Z'')
   \<and> checkpoints (snd (save_priv ((example_env ''2017-01-01T00:00:00.000Z'' ''OVERWRITE'')
           \<lparr>r_listCheckpoints := Some (ResponseError 403)\<rparr>) example_state))
      = checkpoints example_state"
proof -
  let ?e = "example_env ''2017-01-01T00:00:00.000Z'' ''OVERWRITE''"
  let ?v = "example_env ''2017-01-01T00:00:00.600Z'' ''REVERT''"
  let ?f = "?e\<lparr>r_listCheckpoints := Some (ResponseError 403)\<rparr>"
  have h: "checkpointing example_D ?e example_state"
    by (simp add: checkpointing_def reaches_save_def conflict_def creates_def stored_def
          store_list_def example_defs)
  have nv: "\<not> checkpointing example_D ?v example_state"
    by (simp add: checkpointing_def reaches_save_def conflict_def example_defs)
  have w: "writable (contentsModel example_state)" "\<not> hasCheckpointed example_state"
    "r_listCheckpoints ?f = Some (ResponseError 403)"
    "r_save ?f = Inr (example_model ''2017-01-01T00:00:10.000Z'')"
    by (simp_all add: example_defs)
  have k: "stored example_checkpointed \<noteq> []"
    by (simp add: example_checkpointed_def example_defs stored_def store_list_def)
  have c1: "length (stored (saves example_D (?e # [?e, ?e]) example_state)) = 1
      \<and> hasCheckpointed (saves example_D (?e # [?e, ?e]) example_state)"
    using C3_checkpoint_once[of example_D "[?e, ?e]" example_state ?e] h by blast
  have c2: "stored (ctx_save example_D ?v example_state) = stored example_state"
    using C3_checkpoint_once[of example_D "[?e, ?e]" example_state ?v] nv by blast
  have c3: "stored (saves example_D [?e, ?e, ?e] example_checkpointed) = stored example_checkpointed"
    using C3_checkpoint_once[of example_D "[?e, ?e, ?e]" example_checkpointed ?e] k by blast
  have c4: "fst (save_priv ?f example_state) = r_save ?f
      \<and> checkpoints (snd (save_priv ?f example_state)) = checkpoints example_state"
    using C3_checkpoint_once[of example_D "[?e, ?e, ?e]" example_state ?f] w by blast
  show ?thesis using c1 c2 c3 c4 w(4) by (simp del: saves.simps)
qed

text \<open>
  Counterexamples for C3 as stated, both on a fresh, writable, live context. For a file
  that already has a checkpoint on the server, two successful saves write the file twice
  and create no checkpoint. For a file without checkpoints whose remote copy is 600 ms
  newer, a save whose conflict dialog is answered REVERT reloads the file and creates no
  checkpoint.
\<close>

theorem C3_counterexample:
  "writable (contentsModel example_checkpointed) \<and> \<not> isDisposed example_checkpointed
   \<and> \<not> hasCheckpointed example_checkpointed
   \<and> succeeds (example_env ''2017-01-01T00:00:00.000Z'' ''OVERWRITE'')
   \<and> stored (saves example_D
        [example_env ''2017-01-01T00:00:00.000Z'' ''OVERWRITE'',
         example_env ''2017-01-01T00:00:00.000Z'' ''OVERWRITE''] example_checkpointed)
      = stored example_checkpointed
   \<and> CreateCheckpoint ''notes.txt'' \<notin> set (events (saves example_D
        [example_env ''2017-01-01T00:00:00.000Z'' ''OVERWRITE'',
         example_env ''2017-01-01T00:00:00.000Z'' ''OVERWRITE''] example_checkpointed))
   \<and> Write ''notes.txt'' ''file'' ''text'' (Str ''hello'') \<in> set (events (saves example_D
        [example_env ''2017-01-01T00:00:00.000Z'' ''OVERWRITE'',
         example_env ''2017-01-01T00:00:00.000Z'' ''OVERWRITE''] example_checkpointed))
   \<and> writable (contentsModel example_state) \<and> \<not> isDisposed example_state
   \<and> \<not> hasCheckpointed example_state \<and> stored example_state = []
   \<and> stored (saves example_D
        [example_env ''2017-01-01T00:00:00.600Z'' ''REVERT''] example_state) = []
   \<and> new_events example_state (saves example_D
        [example_env ''2017-01-01T00:00:00.600Z'' ''REVERT''] example_state)
      = [Fetch ''notes.txt'' False, ShowDialog ''File Changed'', Fetch ''notes.txt'' True,
         FileChanged (example_model ''2017-01-01T00:00:00.600Z'')]"
  by (simp add: ctx_defs example_defs example_checkpointed_def stored_def succeeds_def Let_def
        new_events_def)

section \<open>Fetch errors during save\<close>

lemma maybeCheckpoint_model:
  "contentType (snd (maybeCheckpoint ev s)) = contentType s
   \<and> fileFormat (snd (maybeCheckpoint ev s)) = fileFormat s
   \<and> mvalue (snd (maybeCheckpoint ev s)) = mvalue s"
  by (auto simp: maybeCheckpoint_def listCheckpoints_def store_list_def createCheckpoint_def store_create_def catch403_def
        emit_def Let_def split: sum.splits prod.splits option.splits if_splits)

lemma save_priv_writes:
  assumes "fst (maybeCheckpoint ev t) = Inr u"
  shows "\<exists>es. events (snd (save_priv ev t)) =
           events t @ es @ [Write (c_path t) (contentType t) (fileFormat t) (mvalue t)]"
proof (cases "maybeCheckpoint ev t")
  case (Pair r t1)
  then have r: "r = Inr u" using assms by simp
  obtain es where es: "events t1 = events t @ es"
    using events_maybeCheckpoint[of ev t] Pair by auto
  have f: "c_path t1 = c_path t" "contentType t1 = contentType t" "fileFormat t1 = fileFormat t"
    "mvalue t1 = mvalue t"
    using maybeCheckpoint_store[of ev t] maybeCheckpoint_model[of ev t] Pair by simp_all
  show ?thesis using Pair r es f
    by (simp add: save_priv_def saveModel_def emit_def toJSON_def toString_def)
qed

lemma events_maybeSave:
  "\<exists>es. events (snd (maybeSave D ev s)) = events s @ Fetch (c_path s) False # es"
proof -
  let ?s1 = "emit (Fetch (c_path s) False) s"
  have e1: "events ?s1 = events s @ [Fetch (c_path s) False]" by (simp add: emit_def)
  obtain es where es: "events (snd (save_priv ev ?s1)) = events ?s1 @ es"
    using events_save_priv by blast
  have tc: "\<And>m. \<exists>es'. events (snd (timeConflict ev m ?s1)) = events ?s1 @ es'"
    using events_timeConflict[of ev _ ?s1] by blast
  show ?thesis
  proof (cases "r_get ev")
    case (Inl e)
    then show ?thesis using es e1 by (auto simp: maybeSave_def Let_def events_resolved)
  next
    case (Inr m)
    obtain es' where "events (snd (timeConflict ev m ?s1)) = events ?s1 @ es'" using tc by blast
    then show ?thesis using Inr es e1 by (auto simp: maybeSave_def Let_def events_resolved)
  qed
qed

lemma new_events_ctx_save_first:
  assumes "\<not> isCollaborative s"
  shows "\<exists>es. new_events s (ctx_save D ev s) = Fetch (c_path s) False # es"
proof -
  obtain r s1 where rs: "maybeSave D ev s = (r, s1)" by (cases "maybeSave D ev s")
  obtain es where es: "events s1 = events s @ Fetch (c_path s) False # es"
    using events_maybeSave[of D ev s] rs by auto
  obtain es' where "events (save_then (r, s1)) = events s1 @ es'"
    using events_save_then by blast
  then have "events (ctx_save D ev s) = events s @ (Fetch (c_path s) False # es @ es')"
    using assms rs es by (simp add: ctx_save_def)
  then show ?thesis by (simp add: new_events_append)
qed

text \<open>
  C8. In the maybe-save branch (a non-collaborative document), when the metadata fetch
  is rejected with a 404 response the save continues exactly as the write path
  \<^verbatim>\<open>_save\<close> does after the fetch, and the write request is made unless the checkpoint
  step itself is rejected; when the storage calls succeed on a live context no error
  dialog opens and the dirty flag is cleared. When the fetch is rejected with anything
  else, nothing is written: the only effects are the fetch and a "File Save Error"
  dialog, and the context is otherwise unchanged.
\<close>

theorem C8_fetch_errors:
  assumes "\<not> isCollaborative s" and "r_get ev = Inl e"
  shows "(hasStatus e 404 \<longrightarrow>
            ctx_save D ev s = save_then (resolved (save_priv ev (emit (Fetch (c_path s) False) s)))
          \<and> (fst (maybeCheckpoint ev (emit (Fetch (c_path s) False) s)) = Inr () \<longrightarrow>
               Write (c_path s) (contentType s) (fileFormat s) (mvalue s)
                 \<in> set (new_events s (ctx_save D ev s)))
          \<and> (succeeds ev \<and> \<not> isDisposed s \<longrightarrow>
               ShowDialog ''File Save Error'' \<notin> set (new_events s (ctx_save D ev s))
             \<and> \<not> dirty (ctx_save D ev s)))
       \<and> (\<not> hasStatus e 404 \<longrightarrow>
            new_events s (ctx_save D ev s) = [Fetch (c_path s) False, ShowDialog ''File Save Error'']
          \<and> (ctx_save D ev s)\<lparr>events := events s\<rparr> = s)"
proof -
  let ?s1 = "emit (Fetch (c_path s) False) s"
  have found: "hasStatus e 404 \<longrightarrow> ctx_save D ev s = save_then (resolved (save_priv ev ?s1))"
    using assms by (simp add: ctx_save_def maybeSave_def Let_def)
  have "Write (c_path s) (contentType s) (fileFormat s) (mvalue s)
          \<in> set (new_events s (ctx_save D ev s))"
    if h: "hasStatus e 404" and ok: "fst (maybeCheckpoint ev ?s1) = Inr ()"
  proof -
    obtain r s2 where rs: "resolved (save_priv ev ?s1) = (r, s2)"
      by (cases "resolved (save_priv ev ?s1)")
    obtain es where "events (snd (save_priv ev ?s1)) =
        events ?s1 @ es @ [Write (c_path ?s1) (contentType ?s1) (fileFormat ?s1) (mvalue ?s1)]"
      using save_priv_writes[OF ok] by blast
    then have e2: "events s2 =
        events s @ Fetch (c_path s) False # es @ [Write (c_path s) (contentType s) (fileFormat s) (mvalue s)]"
      using rs events_resolved[of "save_priv ev ?s1"] by (simp add: emit_def)
    obtain es' where "events (save_then (r, s2)) = events s2 @ es'"
      using events_save_then by blast
    then have "events (ctx_save D ev s) = events s @
        (Fetch (c_path s) False # es @ [Write (c_path s) (contentType s) (fileFormat s) (mvalue s)] @ es')"
      using found h rs e2 by simp
    then show ?thesis by (simp add: new_events_append)
  qed
  moreover have "\<not> hasStatus e 404 \<longrightarrow>
            new_events s (ctx_save D ev s) = [Fetch (c_path s) False, ShowDialog ''File Save Error'']
          \<and> (ctx_save D ev s)\<lparr>events := events s\<rparr> = s"
    using assms
    by (simp add: ctx_save_def maybeSave_def save_then_def handleError_def emit_def Let_def
          new_events_def)
  moreover have "ShowDialog ''File Save Error'' \<notin> set (new_events s (ctx_save D ev s))
             \<and> \<not> dirty (ctx_save D ev s)"
    if ok: "succeeds ev" "\<not> isDisposed s"
  proof -
    obtain es where "events (ctx_save D ev s) = events s @ es"
      "\<forall>x. ShowDialog x \<in> set es \<longrightarrow> x = ''File Changed''" "\<not> dirty (ctx_save D ev s)"
      using ctx_save_succeeds[OF ok, of D] by blast
    then show ?thesis by (auto simp: new_events_append)
  qed
  ultimately show ?thesis using found by blast
qed

text \<open>
  Witness for C8: on the example document a 404 leads to the write request, a 500 to
  the error dialog alone.
\<close>

theorem C8_fetch_errors_witness:
  "Write ''notes.txt'' ''file'' ''text'' (Str ''hello'') \<in> set (new_events example_state
      (ctx_save example_D ((example_env ''2017-01-01T00:00:00.000Z'' ''CANCEL'')
          \<lparr>r_get := Inl (ResponseError 404)\<rparr>) example_state))
   \<and> new_events example_state
      (ctx_save example_D ((example_env ''2017-01-01T00:00:00.000Z'' ''CANCEL'')
          \<lparr>r_get := Inl (ResponseError 500)\<rparr>) example_state)
     = [Fetch ''notes.txt'' False, ShowDialog ''File Save Error'']"
proof -
  let ?e = "example_env ''2017-01-01T00:00:00.000Z'' ''CANCEL''"
  have a: "\<not> isCollaborative example_state" by (simp add: example_state_def)
  have b: "r_get (?e\<lparr>r_get := Inl (ResponseError 404)\<rparr>) = Inl (ResponseError 404)"
    "r_get (?e\<lparr>r_get := Inl (ResponseError 500)\<rparr>) = Inl (ResponseError 500)"
    by simp_all
  have c: "hasStatus (ResponseError 404) 404" "\<not> hasStatus (ResponseError 500) 404"
    by simp_all
  have d: "fst (maybeCheckpoint (?e\<lparr>r_get := Inl (ResponseError 404)\<rparr>)
             (emit (Fetch (c_path example_state) False) example_state)) = Inr ()"
    by (simp add: ctx_defs example_defs Let_def)
  have f: "c_path example_state = ''notes.txt''" "contentType example_state = ''file''"
    "fileFormat example_state = ''text''" "mvalue example_state = Str ''hello''"
    by (simp_all add: example_state_def)
  have w1: "Write (c_path example_state) (contentType example_state) (fileFormat example_state)
       (mvalue example_state) \<in> set (new_events example_state
      (ctx_save example_D (?e\<lparr>r_get := Inl (ResponseError 404)\<rparr>) example_state))"
    using C8_fetch_errors[OF a b(1), of example_D] c d by blast
  have w2: "new_events example_state
      (ctx_save example_D (?e\<lparr>r_get := Inl (ResponseError 500)\<rparr>) example_state)
     = [Fetch (c_path example_state) False, ShowDialog ''File Save Error'']"
    using C8_fetch_errors[OF a b(2), of example_D] c by blast
  show ?thesis using w1 w2 unfolding f by simp
qed

section \<open>Renames\<close>

lemma targets_maybeCheckpoint:
  "\<exists>es. events (snd (maybeCheckpoint ev s)) = events s @ es \<and> (\<forall>e\<in>set es. targets (c_path s) e)"
  by (auto simp: maybeCheckpoint_def listCheckpoints_def store_list_def createCheckpoint_def store_create_def catch403_def
        emit_def Let_def split: sum.splits prod.splits option.splits if_splits)

lemma targets_save_priv:
  "\<exists>es. events (snd (save_priv ev s)) = events s @ es \<and> (\<forall>e\<in>set es. targets (c_path s) e)"
proof (cases "maybeCheckpoint ev s")
  case (Pair r s1)
  obtain es where es: "events s1 = events s @ es" "\<forall>e\<in>set es. targets (c_path s) e"
    using targets_maybeCheckpoint[of ev s] Pair by auto
  have p: "c_path s1 = c_path s" using maybeCheckpoint_store[of ev s] Pair by simp
  show ?thesis using Pair es p
    by (cases r) (auto simp: save_priv_def saveModel_def emit_def Let_def)
qed

lemma targets_revert:
  "\<exists>es. events (revert ev s) = events s @ es \<and> (\<forall>e\<in>set es. targets (c_path s) e)"
proof (cases "loadModel ev s")
  case (Pair r s1)
  then have e1: "events s1 = events s @ [Fetch (c_path s) True]"
    using events_loadModel[of ev s] by simp
  show ?thesis
  proof (cases r)
    case (Inl e)
    then show ?thesis using Pair e1 by (simp add: revert_def handleError_def emit_def)
  next
    case (Inr c)
    then show ?thesis using Pair e1 events_updateContentsModel[of c s1]
      by (auto simp: revert_def)
  qed
qed

lemma targets_save_then:
  "\<exists>es. events (save_then (r, s)) = events s @ es \<and> (\<forall>e\<in>set es. targets p e)"
  by (auto simp: save_then_def updateContentsModel_def handleError_def emit_def Let_def
        split: sum.splits option.splits)

lemma targets_timeConflict:
  "\<exists>es. events (snd (timeConflict ev m s)) = events s @ es \<and> (\<forall>e\<in>set es. targets (c_path s) e)"
proof -
  let ?s1 = "emit (ShowDialog ''File Changed'') s"
  have e1: "events ?s1 = events s @ [ShowDialog ''File Changed'']" "c_path ?s1 = c_path s"
    by (simp_all add: emit_def)
  obtain es where es: "events (snd (save_priv ev ?s1)) = events ?s1 @ es"
      "\<forall>e\<in>set es. targets (c_path s) e"
    using targets_save_priv[of ev ?s1] e1 by auto
  obtain es' where es': "events (revert ev ?s1) = events ?s1 @ es'"
      "\<forall>e\<in>set es'. targets (c_path s) e"
    using targets_revert[of ev ?s1] e1 by auto
  show ?thesis using e1 es es'
    by (auto simp: timeConflict_def Let_def events_resolved)
qed

lemma targets_maybeSave:
  "\<exists>es. events (snd (maybeSave D ev s)) = events s @ es \<and> (\<forall>e\<in>set es. targets (c_path s) e)"
proof -
  let ?s1 = "emit (Fetch (c_path s) False) s"
  have e1: "events ?s1 = events s @ [Fetch (c_path s) False]" "c_path ?s1 = c_path s"
    by (simp_all add: emit_def)
  obtain es where es: "events (snd (save_priv ev ?s1)) = events ?s1 @ es"
      "\<forall>e\<in>set es. targets (c_path s) e"
    using targets_save_priv[of ev ?s1] e1 by auto
  show ?thesis
  proof (cases "r_get ev")
    case (Inl e)
    then show ?thesis using es e1 by (auto simp: maybeSave_def Let_def events_resolved)
  next
    case (Inr m)
    obtain es' where "events (snd (timeConflict ev m ?s1)) = events ?s1 @ es'"
        "\<forall>e\<in>set es'. targets (c_path s) e"
      using targets_timeConflict[of ev m ?s1] e1 by auto
    then show ?thesis using Inr es e1 by (auto simp: maybeSave_def Let_def events_resolved)
  qed
qed

lemma targets_ctx_save:
  "\<forall>e\<in>set (new_events s (ctx_save D ev s)). targets (c_path s) e"
proof -
  let ?r = "if \<not> isCollaborative s then maybeSave D ev s else resolved (save_priv ev s)"
  obtain es where es: "events (snd ?r) = events s @ es" "\<forall>e\<in>set es. targets (c_path s) e"
    using targets_maybeSave[of D ev s] targets_save_priv[of ev s]
    by (cases "isCollaborative s") (auto simp: events_resolved)
  obtain es' where es': "events (save_then (fst ?r, snd ?r)) = events (snd ?r) @ es'"
      "\<forall>e\<in>set es'. targets (c_path s) e"
    using targets_save_then[of "fst ?r" "snd ?r" "c_path s"] by blast
  have "ctx_save D ev s = save_then (fst ?r, snd ?r)" by (simp add: ctx_save_def)
  then have "events (ctx_save D ev s) = events s @ (es @ es')" using es es' by simp
  then have "new_events s (ctx_save D ev s) = es @ es'" by (rule new_events_append)
  then show ?thesis using es es' by auto
qed

lemma onFileChanged_rename:
  assumes "ctype change = ''rename''" and "oldValue change = Some ov" and "path ov = c_path s"
    and "newValue change = Some nv" and "path nv \<noteq> []"
  shows "onFileChanged nameOf change s =
     emit (PathChanged (path nv))
       ((updateContentsModel nv
           (s\<lparr>session_path := path nv, session_name := nameOf (path nv), c_path := path nv\<rparr>))
         \<lparr>hasCheckpointed := False\<rparr>)"
  using assms
  by (simp add: onFileChanged_def setPath_def setName_def Let_def updateContentsModel_def emit_def)

text \<open>
  C7. A rename notification whose old path is the path of the context, and which
  carries a new path, sets the path of the context and of the session to the new path,
  names the session after it, replaces the cached metadata with the content-free copy
  of the new value, resets hasCheckpointed and emits pathChanged with the new path. A
  save that follows addresses every storage request to the new path, starting, for a
  non-collaborative document, with the metadata fetch; when the storage calls succeed
  on a live context it writes the document there and clears the dirty flag.
\<close>

theorem C7_rename:
  assumes "ctype change = ''rename''" and "oldValue change = Some ov" and "path ov = c_path s"
    and "newValue change = Some nv" and "path nv \<noteq> []"
  shows "c_path (onFileChanged nameOf change s) = path nv
    \<and> session_path (onFileChanged nameOf change s) = path nv
    \<and> session_name (onFileChanged nameOf change s) = nameOf (path nv)
    \<and> contentsModel (onFileChanged nameOf change s) = nv\<lparr>content := Undefined\<rparr>
    \<and> \<not> hasCheckpointed (onFileChanged nameOf change s)
    \<and> PathChanged (path nv) \<in> set (new_events s (onFileChanged nameOf change s))
    \<and> (\<not> isCollaborative s \<longrightarrow>
          (\<exists>es. new_events (onFileChanged nameOf change s)
                  (ctx_save D ev (onFileChanged nameOf change s)) = Fetch (path nv) False # es))
    \<and> (\<forall>e\<in>set (new_events (onFileChanged nameOf change s)
                    (ctx_save D ev (onFileChanged nameOf change s))). targets (path nv) e)
    \<and> (succeeds ev \<and> \<not> isDisposed s \<longrightarrow>
          Write (path nv) (contentType s) (fileFormat s) (mvalue s)
            \<in> set (new_events (onFileChanged nameOf change s)
                     (ctx_save D ev (onFileChanged nameOf change s)))
        \<and> \<not> dirty (ctx_save D ev (onFileChanged nameOf change s))
        \<and> c_path (ctx_save D ev (onFileChanged nameOf change s)) = path nv)"
proof -
  let ?s' = "onFileChanged nameOf change s"
  have eq: "?s' = emit (PathChanged (path nv))
       ((updateContentsModel nv
           (s\<lparr>session_path := path nv, session_name := nameOf (path nv), c_path := path nv\<rparr>))
         \<lparr>hasCheckpointed := False\<rparr>)"
    using assms by (rule onFileChanged_rename)
  have f: "c_path ?s' = path nv" "session_path ?s' = path nv"
    "session_name ?s' = nameOf (path nv)" "contentsModel ?s' = nv\<lparr>content := Undefined\<rparr>"
    "\<not> hasCheckpointed ?s'" "isCollaborative ?s' = isCollaborative s"
    "isDisposed ?s' = isDisposed s" "contentType ?s' = contentType s"
    "fileFormat ?s' = fileFormat s" "mvalue ?s' = mvalue s"
    unfolding eq by (simp_all add: updateContentsModel_def emit_def Let_def strip_content)
  have p: "PathChanged (path nv) \<in> set (new_events s ?s')"
    unfolding eq by (simp add: updateContentsModel_def emit_def Let_def new_events_def)
  have first: "\<not> isCollaborative s \<longrightarrow>
      (\<exists>es. new_events ?s' (ctx_save D ev ?s') = Fetch (path nv) False # es)"
    using new_events_ctx_save_first[of ?s' D ev] f by simp
  have all: "\<forall>e\<in>set (new_events ?s' (ctx_save D ev ?s')). targets (path nv) e"
    using targets_ctx_save[of ?s' D ev] f by simp
  have "Write (path nv) (contentType s) (fileFormat s) (mvalue s)
            \<in> set (new_events ?s' (ctx_save D ev ?s'))
        \<and> \<not> dirty (ctx_save D ev ?s') \<and> c_path (ctx_save D ev ?s') = path nv"
    if h: "succeeds ev" "\<not> isDisposed s"
  proof -
    have live: "\<not> isDisposed ?s'" using h f by simp
    obtain es where "events (ctx_save D ev ?s') = events ?s' @ es"
      "Write (c_path ?s') (contentType ?s') (fileFormat ?s') (mvalue ?s') \<in> set es"
      "\<not> dirty (ctx_save D ev ?s')" "c_path (ctx_save D ev ?s') = c_path ?s'"
      using ctx_save_succeeds[OF h(1) live, of D] by blast
    then show ?thesis using f by (simp add: new_events_append)
  qed
  then show ?thesis using f p first all by blast
qed

text \<open>
  Witness for C7: the example document is renamed to \<open>dir/renamed.txt\<close> and then saved.
\<close>

theorem C7_rename_witness:
  "c_path (onFileChanged (\<lambda>p. ''renamed.txt'') example_rename example_state) = ''dir/renamed.txt''
   \<and> session_path (onFileChanged (\<lambda>p. ''renamed.txt'') example_rename example_state) = ''dir/renamed.txt''
   \<and> \<not> hasCheckpointed (onFileChanged (\<lambda>p. ''renamed.txt'') example_rename example_state)
   \<and> Write ''dir/renamed.txt'' ''file'' ''text'' (Str ''hello'')
        \<in> set (new_events (onFileChanged (\<lambda>p. ''renamed.txt'') example_rename example_state)
             (ctx_save example_D (example_env ''2017-01-01T00:00:00.400Z'' ''OVERWRITE'')
               (onFileChanged (\<lambda>p. ''renamed.txt'') example_rename example_state)))"
proof -
  let ?nv = "(example_model ''2017-01-01T00:00:00.400Z'')\<lparr>path := ''dir/renamed.txt'', name := ''renamed.txt''\<rparr>"
  have h: "ctype example_rename = ''rename''"
    "oldValue example_rename = Some (example_model ''2017-01-01T00:00:00.000Z'')"
    "path (example_model ''2017-01-01T00:00:00.000Z'') = c_path example_state"
    "newValue example_rename = Some ?nv" "path ?nv \<noteq> []"
    by (simp_all add: example_rename_def example_defs)
  have k: "succeeds (example_env ''2017-01-01T00:00:00.400Z'' ''OVERWRITE'')"
    "\<not> isDisposed example_state" "path ?nv = ''dir/renamed.txt''"
    "contentType example_state = ''file''" "fileFormat example_state = ''text''"
    "mvalue example_state = Str ''hello''"
    by (simp_all add: example_defs succeeds_def)
  show ?thesis
    using C7_rename[OF h, of "\<lambda>p. ''renamed.txt''" example_D
        "example_env ''2017-01-01T00:00:00.400Z'' ''OVERWRITE''"] k
    by simp
qed

section \<open>Contexts of the manager\<close>

lemma set_removeFirstOf: "set (removeFirstOf i cs) \<subseteq> set cs"
  by (induction cs) auto

lemma distinct_removeFirstOf: "distinct cs \<Longrightarrow> distinct (removeFirstOf i cs)"
proof (induction cs)
  case Nil
  then show ?case by simp
next
  case (Cons c cs)
  then show ?case using set_removeFirstOf[of i cs] by auto
qed

lemma distinct_map_removeFirstOf:
  assumes "distinct (map f cs)"
  shows "distinct (map f (removeFirstOf i cs))"
proof -
  have "distinct cs" and inj: "inj_on f (set cs)" using assms by (simp_all add: distinct_map)
  then have "distinct (removeFirstOf i cs)" by (simp add: distinct_removeFirstOf)
  moreover have "inj_on f (set (removeFirstOf i cs))"
    using inj set_removeFirstOf[of i cs] by (rule inj_on_subset)
  ultimately show ?thesis by (simp add: distinct_map)
qed

lemma findContext_None:
  "findContext p fname m = None \<Longrightarrow> (p, fname) \<notin> key ` set (contexts m)"
  by (auto simp: findContext_def find_None_iff key_def)

lemma createOrOpenDocument_none:
  "widgetFactoryFor reg p w = None \<Longrightarrow> createOrOpenDocument reg wh p w m = (None, m)"
  by (simp add: createOrOpenDocument_def)

lemma createOrOpenDocument_no_model:
  "widgetFactoryFor reg p w = Some wfac \<Longrightarrow>
   getModelFactory reg (case modelName wfac of None \<Rightarrow> ''text''
                        | Some n \<Rightarrow> if n = [] then ''text'' else n) = None \<Longrightarrow>
   createOrOpenDocument reg wh p w m = (None, m)"
  by (simp add: createOrOpenDocument_def)

lemma createOrOpenDocument_found:
  "widgetFactoryFor reg p w = Some wfac \<Longrightarrow>
   getModelFactory reg (case modelName wfac of None \<Rightarrow> ''text''
                        | Some n \<Rightarrow> if n = [] then ''text'' else n) = Some factory \<Longrightarrow>
   findContext p (mf_name factory) m = Some c \<Longrightarrow>
   createOrOpenDocument reg Open p w m =
     (Some (wf_name wfac, c), m\<lparr>mcalls := mcalls m @ [CreateWidget (wf_name wfac) (ctx_id c)]\<rparr>)"
  by (simp add: createOrOpenDocument_def)

lemma createOrOpenDocument_new:
  "widgetFactoryFor reg p w = Some wfac \<Longrightarrow>
   getModelFactory reg (case modelName wfac of None \<Rightarrow> ''text''
                        | Some n \<Rightarrow> if n = [] then ''text'' else n) = Some factory \<Longrightarrow>
   findContext p (mf_name factory) m = None \<Longrightarrow>
   createOrOpenDocument reg Open p w m =
     (Some (wf_name wfac, \<lparr>ctx_id = nextId m, ctx_path = p, factoryName = mf_name factory\<rparr>),
      m\<lparr>contexts := contexts m @ [\<lparr>ctx_id = nextId m, ctx_path = p, factoryName = mf_name factory\<rparr>],
        nextId := Suc (nextId m),
        mcalls := mcalls m @ [FromStore (nextId m), CreateWidget (wf_name wfac) (nextId m)]\<rparr>)"
  by (simp add: createOrOpenDocument_def createContext_def Let_def)

lemma createOrOpenDocument_create:
  "widgetFactoryFor reg p w = Some wfac \<Longrightarrow>
   getModelFactory reg (case modelName wfac of None \<Rightarrow> ''text''
                        | Some n \<Rightarrow> if n = [] then ''text'' else n) = Some factory \<Longrightarrow>
   createOrOpenDocument reg Create p w m =
     (Some (wf_name wfac, \<lparr>ctx_id = nextId m, ctx_path = p, factoryName = mf_name factory\<rparr>),
      m\<lparr>contexts := contexts m @ [\<lparr>ctx_id = nextId m, ctx_path = p, factoryName = mf_name factory\<rparr>],
        nextId := Suc (nextId m),
        mcalls := mcalls m @ [Save (nextId m), CreateWidget (wf_name wfac) (nextId m)]\<rparr>)"
  by (simp add: createOrOpenDocument_def createContext_def Let_def)

lemma open_doc_cases:
  assumes "open_doc reg p w m = (r, m')"
  shows "contexts m' = contexts m
    \<or> (\<exists>c. contexts m' = contexts m @ [c] \<and> key c \<notin> key ` set (contexts m) \<and> ctx_path c = p)"
proof (cases "widgetFactoryFor reg p w")
  case None
  then show ?thesis using assms createOrOpenDocument_none[OF None, of Open m]
    by (simp add: open_doc_def)
next
  case (Some wfac)
  let ?mn = "case modelName wfac of None \<Rightarrow> ''text'' | Some n \<Rightarrow> if n = [] then ''text'' else n"
  show ?thesis
  proof (cases "getModelFactory reg ?mn")
    case None
    then show ?thesis using assms createOrOpenDocument_no_model[OF Some None, of Open m]
      by (simp add: open_doc_def)
  next
    case f: (Some factory)
    show ?thesis
    proof (cases "findContext p (mf_name factory) m")
      case None
      then have "(p, mf_name factory) \<notin> key ` set (contexts m)" by (rule findContext_None)
      then show ?thesis using assms createOrOpenDocument_new[OF Some f None]
        by (auto simp: open_doc_def key_def)
    next
      case c: (Some c)
      then show ?thesis using assms createOrOpenDocument_found[OF Some f c]
        by (auto simp: open_doc_def)
    qed
  qed
qed

lemma apply_mop_distinct:
  assumes "open_or_disposal x" and "distinct (map key (contexts m))"
  shows "distinct (map key (contexts (apply_mop reg x m)))"
proof (cases x)
  case (DoOpen p w)
  obtain r m' where o: "open_doc reg p w m = (r, m')" by (cases "open_doc reg p w m")
  then show ?thesis using open_doc_cases[OF o] assms(2) DoOpen by auto
next
  case (DoCreateNew p w)
  then show ?thesis using assms(1) by simp
next
  case (ContextDisposed i)
  then show ?thesis using assms(2)
    by (simp add: onContextDisposed_def distinct_map_removeFirstOf)
next
  case (ContextPathChanged i p)
  then show ?thesis using assms(1) by simp
qed

lemma run_mops_distinct:
  "\<forall>x\<in>set ops. open_or_disposal x \<Longrightarrow> distinct (map key (contexts m)) \<Longrightarrow>
   distinct (map key (contexts (run_mops reg ops m)))"
proof (induction ops arbitrary: m)
  case Nil
  then show ?case by simp
next
  case (Cons x xs)
  then show ?case using apply_mop_distinct[of x m reg] by simp
qed

lemma createNew_appends:
  assumes "createNew reg p w m = (Some (n, c), m')"
  shows "contexts m' = contexts m @ [c] \<and> ctx_path c = p"
proof (cases "widgetFactoryFor reg p w")
  case None
  then show ?thesis using assms createOrOpenDocument_none[OF None, of Create m]
    by (simp add: createNew_def)
next
  case (Some wfac)
  let ?mn = "case modelName wfac of None \<Rightarrow> ''text'' | Some n \<Rightarrow> if n = [] then ''text'' else n"
  show ?thesis
  proof (cases "getModelFactory reg ?mn")
    case None
    then show ?thesis using assms createOrOpenDocument_no_model[OF Some None, of Create m]
      by (simp add: createNew_def)
  next
    case f: (Some factory)
    then show ?thesis using assms createOrOpenDocument_create[OF Some f, of m]
      by (auto simp: createNew_def)
  qed
qed

text \<open>
  C4, in the form the code satisfies. Keys are taken on the current paths of the
  contexts. While a manager sees only calls of \<^verbatim>\<open>open\<close> and disposals of contexts, a
  table in which no two contexts have the same path and model factory name stays so; in
  particular this holds of every such run of a new manager. A call of \<^verbatim>\<open>open\<close> leaves the
  table as it is or appends one context whose key no context of the table has: creation
  follows a failed lookup. A call of \<^verbatim>\<open>createNew\<close> that returns a widget has appended a
  new context for the path, with no lookup. A context that changes its path takes the
  new path in the table, whatever the other contexts are.
\<close>

theorem C4_unique_contexts:
  "((\<forall>x\<in>set ops. open_or_disposal x) \<and> distinct (map key (contexts m)) \<longrightarrow>
      distinct (map key (contexts (run_mops reg ops m))))
   \<and> ((\<forall>x\<in>set ops. open_or_disposal x) \<longrightarrow>
      distinct (map key (contexts (run_mops reg ops DocumentManager_new))))
   \<and> (open_doc reg p w m = (r, m') \<longrightarrow>
        contexts m' = contexts m
        \<or> (\<exists>c. contexts m' = contexts m @ [c] \<and> key c \<notin> key ` set (contexts m) \<and> ctx_path c = p))
   \<and> (createNew reg p w m = (Some (n, c), m') \<longrightarrow>
        contexts m' = contexts m @ [c] \<and> ctx_path c = p)
   \<and> map key (contexts (contextPathChanged i p m)) =
        map (\<lambda>c. if ctx_id c = i then (p, factoryName c) else key c) (contexts m)"
proof -
  have a: "(\<forall>x\<in>set ops. open_or_disposal x) \<and> distinct (map key (contexts m)) \<longrightarrow>
      distinct (map key (contexts (run_mops reg ops m)))"
    using run_mops_distinct by blast
  have "distinct (map key (contexts DocumentManager_new))"
    by (simp add: DocumentManager_new_def)
  then have b: "(\<forall>x\<in>set ops. open_or_disposal x) \<longrightarrow>
      distinct (map key (contexts (run_mops reg ops DocumentManager_new)))"
    using run_mops_distinct by blast
  have e: "map key (contexts (contextPathChanged i p m)) =
        map (\<lambda>c. if ctx_id c = i then (p, factoryName c) else key c) (contexts m)"
    by (simp add: contextPathChanged_def key_def)
  show ?thesis
    using a b e open_doc_cases[of reg p w m r m'] createNew_appends[of reg p w m n c m']
    by blast
qed

lemmas mgr_defs = open_doc_def createNew_def createOrOpenDocument_def widgetFactoryFor_def
  findContext_def createContext_def onContextDisposed_def contextPathChanged_def
  DocumentManager_new_def example_registry_def key_def

text \<open>
  Witness for C4: the example run ends with one context for each of the two files, and
  \<^verbatim>\<open>createNew\<close> on an empty manager adds the context it returns.
\<close>

theorem C4_unique_contexts_witness:
  "map key (contexts (run_mops example_registry example_ops DocumentManager_new))
     = [(''b.txt'', ''text''), (''a.txt'', ''text'')]
   \<and> distinct (map key (contexts (run_mops example_registry example_ops DocumentManager_new)))
   \<and> contexts (snd (createNew example_registry ''a.txt'' ''default'' DocumentManager_new))
     = [\<lparr>ctx_id = 0, ctx_path = ''a.txt'', factoryName = ''text''\<rparr>]"
proof -
  let ?c = "\<lparr>ctx_id = 0, ctx_path = ''a.txt'', factoryName = ''text''\<rparr>"
  let ?r = "createNew example_registry ''a.txt'' ''default'' DocumentManager_new"
  have h: "\<forall>x\<in>set example_ops. open_or_disposal x" by (simp add: example_ops_def)
  have v: "map key (contexts (run_mops example_registry example_ops DocumentManager_new))
     = [(''b.txt'', ''text''), (''a.txt'', ''text'')]"
    by (simp add: example_ops_def mgr_defs Let_def)
  have n: "?r = (Some (''Editor'', ?c), snd ?r)"
    by (simp add: mgr_defs Let_def)
  have e: "contexts DocumentManager_new = []" by (simp add: DocumentManager_new_def)
  have d: "distinct (map key (contexts (run_mops example_registry example_ops DocumentManager_new)))"
    using C4_unique_contexts[of example_ops DocumentManager_new example_registry] h by blast
  have "contexts (snd ?r) = contexts DocumentManager_new @ [?c]"
    using C4_unique_contexts[where reg = example_registry and p = "''a.txt''"
        and w = "''default''" and m = DocumentManager_new and n = "''Editor''" and c = ?c
        and m' = "snd ?r"] n by blast
  then show ?thesis using v d e by simp
qed

text \<open>
  Counterexamples for C4 as stated. With \<^verbatim>\<open>open\<close> and then \<^verbatim>\<open>createNew\<close> on the same path
  the table holds two contexts, with different identities, under the same path and
  model factory name. With two files opened and the context of the first changing its
  path to the path of the second (a rename or a save-as onto it), the table again holds
  two contexts under one key.
\<close>

theorem C4_counterexample:
  "map key (contexts (run_mops example_registry
      [DoOpen ''a.txt'' ''default'', DoCreateNew ''a.txt'' ''default''] DocumentManager_new))
     = [(''a.txt'', ''text''), (''a.txt'', ''text'')]
   \<and> map ctx_id (contexts (run_mops example_registry
      [DoOpen ''a.txt'' ''default'', DoCreateNew ''a.txt'' ''default''] DocumentManager_new))
     = [0, 1]
   \<and> \<not> distinct (map key (contexts (run_mops example_registry
      [DoOpen ''a.txt'' ''default'', DoCreateNew ''a.txt'' ''default''] DocumentManager_new)))
   \<and> map key (contexts (run_mops example_registry
      [DoOpen ''a.txt'' ''default'', DoOpen ''b.txt'' ''default'',
       ContextPathChanged 0 ''b.txt''] DocumentManager_new))
     = [(''b.txt'', ''text''), (''b.txt'', ''text'')]
   \<and> map ctx_id (contexts (run_mops example_registry
      [DoOpen ''a.txt'' ''default'', DoOpen ''b.txt'' ''default'',
       ContextPathChanged 0 ''b.txt''] DocumentManager_new))
     = [0, 1]"
  by (simp add: mgr_defs Let_def)

end
